theory Spec2Isabelle
  imports Complex_Main
begin

section \<open>Board items\<close>

text \<open>
  The connectivity code of \<open>class_board.cpp\<close> works on pointers to board items.  An item
  pointer is an address; the items themselves live in a store that maps every address to
  the fields the code reads.  A null pointer is \<open>None\<close>.
\<close>

type_synonym wxPoint = "int \<times> int"

type_synonym LSET = "nat set"

type_synonym ptr = nat

datatype KICAD_T =
    PCB_NETINFO_T | PCB_MARKER_T | PCB_ZONE_AREA_T | PCB_TRACE_T | PCB_VIA_T
  | PCB_ZONE_T | PCB_MODULE_T | PCB_DIMENSION_T | PCB_LINE_T | PCB_TEXT_T
  | PCB_TARGET_T | PCB_PAD_T | PCB_MODULE_TEXT_T | PCB_MODULE_EDGE_T

datatype parent = NoParent | ParentBoard | ParentItem ptr

text \<open>
  One record holds the fields of \<open>TRACK\<close>, \<open>VIA\<close>, \<open>D_PAD\<close> and \<open>MODULE\<close> that the
  modelled functions read or write: \<open>m_Start\<close>/\<open>m_End\<close> of a track or via, \<open>m_Pos\<close> of a pad,
  \<open>m_Layer\<close> of a track, \<open>m_LayerSet\<close> (the layer span of a via, the layer mask of a pad),
  the net code, the \<open>BUSY\<close> bit of the status word, the pads of a footprint, the
  pad-to-die length of a pad and the parent that \<open>SetParent\<close> writes.
\<close>

record ITEM =
  Type :: KICAD_T
  m_Start :: wxPoint
  m_End :: wxPoint
  m_Pos :: wxPoint
  m_Layer :: nat
  m_LayerSet :: LSET
  m_NetCode :: int
  BUSY :: bool
  m_Pads :: "ptr list"
  m_LengthPadToDie :: int
  m_Parent :: parent

type_synonym store = "ptr \<Rightarrow> ITEM"

text \<open>
  Modelled from the spec: the virtual \<open>GetLayerSet()\<close> of \<open>TRACK\<close>, \<open>VIA\<close> and \<open>D_PAD\<close> is
  declared outside the sources at hand.  The data model gives the layer mask as a single
  layer for a segment, the layer span for a via and the pad's own mask for a pad.
\<close>

definition GetLayerSet :: "ITEM \<Rightarrow> LSET" where
  "GetLayerSet it = (if Type it = PCB_TRACE_T then {m_Layer it} else m_LayerSet it)"

section \<open>The board\<close>

text \<open>
  Modelled from the spec: \<open>CONNECTIVITY_DATA\<close> (\<open>connectivity.h\<close>) is not among the sources
  at hand.  The index maintains, per net, the set of connectable items, and a lookup by
  exact endpoint coordinate.  What is said of it is said of membership (an item appears in
  the member list of a net, or in none), so the members of a net and the items indexed at a
  coordinate are kept as sets of item references: neither an order nor a number of entries
  per item is modelled.
\<close>

record CONNECTIVITY_DATA =
  net_members :: "int \<Rightarrow> ptr set"
  at_point :: "wxPoint \<Rightarrow> ptr set"

text \<open>
  The containers of \<open>BOARD\<close> that \<open>Add\<close> and \<open>Remove\<close> dispatch on, each a list of item
  pointers in list order, the status word, the connectivity index and the item store.
\<close>

record BOARD =
  m_NetInfo :: "ptr list"
  m_markers :: "ptr list"
  m_ZoneDescriptorList :: "ptr list"
  m_Track :: "ptr list"
  m_Zone :: "ptr list"
  m_Modules :: "ptr list"
  m_Drawings :: "ptr list"
  m_Status_Pcb :: int
  m_connectivity :: CONNECTIVITY_DATA
  item :: store

text \<open>
  Functions and constants that the modelled code calls and that are declared outside the
  sources at hand, taken as parameters: the mask of all copper layers, the table of scan
  types \<open>GENERAL_COLLECTOR::Tracks\<close>, the length of a track (a \<open>double\<close>, kept as a real
  number), the integer length of a \<open>SEG\<close> between two points, and the insertion point that
  \<open>TRACK::GetBestInsertPoint\<close> proposes.
\<close>

record EXTERN =
  AllCuMask :: LSET
  Tracks :: "KICAD_T list"
  GetLength :: "ITEM \<Rightarrow> real"
  SEG_Length :: "wxPoint \<Rightarrow> wxPoint \<Rightarrow> int"
  GetBestInsertPoint :: "BOARD \<Rightarrow> ptr \<Rightarrow> ptr option"

text \<open>\<open>SetState( BUSY, v )\<close> on the item behind a pointer.\<close>

definition SetState_BUSY :: "BOARD \<Rightarrow> ptr \<Rightarrow> bool \<Rightarrow> BOARD" where
  "SetState_BUSY b p v = b\<lparr>item := (item b)(p := (item b p)\<lparr>BUSY := v\<rparr>)\<rparr>"

section \<open>Path check between two points\<close>

subsection \<open>Helpers of \<open>checkConnectedTo\<close>\<close>

text \<open>\<open>removeTrack\<close>: erase every occurrence of the pointer from the vector.\<close>

definition removeTrack :: "ptr list \<Rightarrow> ptr \<Rightarrow> ptr list" where
  "removeTrack aList aOneToRemove = filter (\<lambda>t. t \<noteq> aOneToRemove) aList"

text \<open>
  \<open>otherEnd\<close>: the end of the track that is not \<open>aNotThisEnd\<close>.  The \<open>wxASSERT\<close> of the
  else branch checks only; the value stored is the start point.
\<close>

definition otherEnd :: "ITEM \<Rightarrow> wxPoint \<Rightarrow> wxPoint" where
  "otherEnd aTrack aNotThisEnd =
     (if m_Start aTrack = aNotThisEnd then m_End aTrack else m_Start aTrack)"

text \<open>
  First loop of \<open>find_vias_and_tracks_at\<close>: every via of \<open>in_net\<close> at \<open>next\<close> whose layers
  meet \<open>lset\<close> is moved to \<open>at_next\<close>, and \<open>lset\<close> grows by its layers at once, so that a later
  via is tested against the grown set.  The result is (vias taken, tracks kept, grown set).
\<close>

fun find_vias :: "store \<Rightarrow> ptr list \<Rightarrow> LSET \<Rightarrow> wxPoint \<Rightarrow> ptr list \<times> ptr list \<times> LSET" where
  "find_vias h [] lset nxt = ([], [], lset)"
| "find_vias h (t # ts) lset nxt =
     (if Type (h t) = PCB_VIA_T \<and> GetLayerSet (h t) \<inter> lset \<noteq> {}
         \<and> (m_Start (h t) = nxt \<or> m_End (h t) = nxt)
      then (case find_vias h ts (lset \<union> GetLayerSet (h t)) nxt of
              (taken, kept, lset') \<Rightarrow> (t # taken, kept, lset'))
      else (case find_vias h ts lset nxt of
              (taken, kept, lset') \<Rightarrow> (taken, t # kept, lset')))"

text \<open>Second loop: the test of one remaining item against the grown layer set.\<close>

definition track_at :: "store \<Rightarrow> LSET \<Rightarrow> wxPoint \<Rightarrow> ptr \<Rightarrow> bool" where
  "track_at h lset nxt t \<longleftrightarrow>
     GetLayerSet (h t) \<inter> lset \<noteq> {} \<and> (m_Start (h t) = nxt \<or> m_End (h t) = nxt)"

text \<open>
  \<open>find_vias_and_tracks_at\<close> returns the new \<open>at_next\<close>, the new \<open>in_net\<close>, the new \<open>lset\<close>
  and \<open>track_count\<close>, which counts the items moved by the second loop only.
\<close>

definition find_vias_and_tracks_at ::
  "store \<Rightarrow> ptr list \<Rightarrow> ptr list \<Rightarrow> LSET \<Rightarrow> wxPoint \<Rightarrow> ptr list \<times> ptr list \<times> LSET \<times> int" where
  "find_vias_and_tracks_at h at_next in_net lset nxt =
     (case find_vias h in_net lset nxt of
        (vias, kept, lset') \<Rightarrow>
          (at_next @ vias @ filter (track_at h lset' nxt) kept,
           filter (\<lambda>t. \<not> track_at h lset' nxt t) kept,
           lset',
           int (length (filter (track_at h lset' nxt) kept))))"

subsection \<open>Pads by exact position\<close>

text \<open>
  \<open>BOARD::GetPadFast\<close>: the first pad, in footprint order and then pad order, whose position
  equals \<open>aPosition\<close> and whose layer set meets \<open>aLayerSet\<close>.
\<close>

definition pad_here :: "store \<Rightarrow> wxPoint \<Rightarrow> LSET \<Rightarrow> ptr \<Rightarrow> bool" where
  "pad_here h aPosition aLayerSet pad \<longleftrightarrow>
     m_Pos (h pad) = aPosition \<and> GetLayerSet (h pad) \<inter> aLayerSet \<noteq> {}"

fun GetPadFast :: "store \<Rightarrow> ptr list \<Rightarrow> wxPoint \<Rightarrow> LSET \<Rightarrow> ptr option" where
  "GetPadFast h [] aPosition aLayerSet = None"
| "GetPadFast h (m # ms) aPosition aLayerSet =
     (case find (pad_here h aPosition aLayerSet) (m_Pads (h m)) of
        Some pad \<Rightarrow> Some pad
      | None \<Rightarrow> GetPadFast h ms aPosition aLayerSet)"

subsection \<open>\<open>checkConnectedTo\<close>\<close>

text \<open>
  The three \<open>IO_ERROR\<close>s of \<open>checkConnectedTo\<close>, with the values their messages print:
  "intervening pad at next between start and goal", "found n tracks intersecting at next,
  exactly 2 would be acceptable" and "not enough tracks connecting start and goal".
\<close>

datatype path_problem =
    InterveningPad wxPoint wxPoint wxPoint
  | TracksIntersecting int wxPoint
  | NotEnoughTracks wxPoint wxPoint

text \<open>
  One pass through the \<open>while( in_net.size() )\<close> loop, test of the loop included.  The
  state is \<open>aList\<close>, \<open>in_net\<close>, \<open>lset\<close> and \<open>next\<close>; the board enters through its store and
  its footprint list.  \<open>Done\<close> ends \<open>checkConnectedTo\<close>, by the \<open>return\<close> (\<open>Inr\<close>, with
  \<open>aList\<close>) or by one of the three throws (\<open>Inl\<close>); \<open>Next\<close> is the state for the next pass.
  The number printed by the second message is \<open>track_count + aList->size() == 1 ? 1 : 0\<close>.
\<close>

datatype cct_outcome =
    Done "path_problem + ptr list"
  | Next "ptr list" "ptr list" LSET wxPoint

definition cct_body ::
  "store \<Rightarrow> ptr list \<Rightarrow> wxPoint \<Rightarrow> wxPoint \<Rightarrow> ptr list \<Rightarrow> ptr list \<Rightarrow> LSET \<Rightarrow> wxPoint
     \<Rightarrow> cct_outcome" where
  "cct_body h mods aGoal aStart aList in_net lset nxt =
     (if in_net = [] then Done (Inl (NotEnoughTracks aStart aGoal))
      else if nxt = aGoal then Done (Inr aList)
      else if GetPadFast h mods nxt lset \<noteq> None
      then Done (Inl (InterveningPad nxt aStart aGoal))
      else (case find_vias_and_tracks_at h aList in_net lset nxt of
              (aList', in_net', lset', track_count) \<Rightarrow>
                if track_count \<noteq> 1
                then Done (Inl (TracksIntersecting
                                  (if track_count + int (length aList') = 1 then 1 else 0) nxt))
                else Next aList' in_net'
                       (GetLayerSet (h (last aList'))) (otherEnd (h (last aList')) nxt)))"

function cct_loop ::
  "store \<Rightarrow> ptr list \<Rightarrow> wxPoint \<Rightarrow> wxPoint \<Rightarrow> ptr list \<Rightarrow> ptr list \<Rightarrow> LSET \<Rightarrow> wxPoint
     \<Rightarrow> path_problem + ptr list" where
  "cct_loop h mods aGoal aStart aList in_net lset nxt =
     (case cct_body h mods aGoal aStart aList in_net lset nxt of
        Done r \<Rightarrow> r
      | Next aList' in_net' lset' nxt' \<Rightarrow> cct_loop h mods aGoal aStart aList' in_net' lset' nxt')"
  by pat_completeness auto

lemma find_vias_length:
  "find_vias h ts lset nxt = (taken, kept, lset') \<Longrightarrow> length taken + length kept = length ts"
  by (induction ts arbitrary: lset taken kept lset') (auto split: if_splits prod.splits)

lemma find_vias_and_tracks_at_shrinks:
  assumes "find_vias_and_tracks_at h aList in_net lset nxt = (aList', in_net', lset', 1)"
  shows "length in_net' < length in_net"
proof -
  obtain vias kept ls where fv: "find_vias h in_net lset nxt = (vias, kept, ls)"
    by (cases "find_vias h in_net lset nxt") auto
  have len: "length vias + length kept = length in_net"
    using find_vias_length [OF fv] .
  have one: "length (filter (track_at h ls nxt) kept) = 1"
    and rest: "in_net' = filter (\<lambda>t. \<not> track_at h ls nxt t) kept"
    using assms by (auto simp: find_vias_and_tracks_at_def fv)
  have "length (filter (track_at h ls nxt) kept)
          + length (filter (\<lambda>t. \<not> track_at h ls nxt t) kept) = length kept"
    by (rule sum_length_filter_compl)
  with one len rest show ?thesis
    by simp
qed

lemma cct_body_Next_shrinks:
  assumes "cct_body h mods aGoal aStart aList in_net lset nxt = Next aList' in_net' lset' nxt'"
  shows "length in_net' < length in_net"
proof -
  obtain al inn ls cnt where f: "find_vias_and_tracks_at h aList in_net lset nxt = (al, inn, ls, cnt)"
    by (cases "find_vias_and_tracks_at h aList in_net lset nxt") auto
  from assms f have "cnt = 1" and "in_net' = inn"
    by (auto simp: cct_body_def split: if_splits)
  with find_vias_and_tracks_at_shrinks [of h aList in_net lset nxt al inn ls] f
  show ?thesis by simp
qed

termination cct_loop
  by (relation "measure (\<lambda>(h, mods, aGoal, aStart, aList, in_net, lset, nxt). length in_net)")
     (auto dest: cct_body_Next_shrinks)

declare cct_loop.simps [simp del]

text \<open>
  \<open>checkConnectedTo\<close>: \<open>in_net\<close> is a copy of the net's tracks without \<open>aFirstTrack\<close>, the walk
  starts at the end of \<open>aFirstTrack\<close> that is not \<open>aStart\<close>, on the layer of \<open>aFirstTrack\<close>.
  \<open>Inr\<close> carries the filled \<open>aList\<close> of a normal return, \<open>Inl\<close> the problem thrown.
\<close>

definition checkConnectedTo ::
  "store \<Rightarrow> ptr list \<Rightarrow> ptr list \<Rightarrow> ptr list \<Rightarrow> wxPoint \<Rightarrow> wxPoint \<Rightarrow> ptr
     \<Rightarrow> path_problem + ptr list" where
  "checkConnectedTo h mods aList aTracksInNet aGoal aStart aFirstTrack =
     cct_loop h mods aGoal aStart (aList @ [aFirstTrack])
       (removeTrack aTracksInNet aFirstTrack) {m_Layer (h aFirstTrack)}
       (otherEnd (h aFirstTrack) aStart)"

subsection \<open>\<open>BOARD::TracksInNetBetweenPoints\<close>\<close>

text \<open>
  \<open>BOARD::Visit\<close>, for a table of scan types that holds track types: the cases \<open>PCB_VIA_T\<close>
  and \<open>PCB_TRACE_T\<close> each walk \<open>m_Track\<close> once with \<open>IterateForward\<close> and move on to the next
  scan type ("both these are on same list, so we must scan it twice").  \<open>IterateForward\<close> and
  the \<open>Visit\<close> of a track are declared outside the sources at hand; a walk is taken to hand
  the inspector the items of the type scanned for, in list order.  The end of the table
  ends the visit; the cases of the other item types are not modelled.  The result is the
  sequence of items handed to the inspector.
\<close>

fun Visit_tracks :: "BOARD \<Rightarrow> KICAD_T list \<Rightarrow> ptr list" where
  "Visit_tracks b [] = []"
| "Visit_tracks b (stype # p) =
     (if stype = PCB_VIA_T \<or> stype = PCB_TRACE_T
      then filter (\<lambda>t. Type (item b t) = stype) (m_Track b) @ Visit_tracks b p
      else [])"

text \<open>
  \<open>BOARD::TracksInNet\<close>: the board's tracks and vias are visited with an inspector that
  appends those of the net to the result.
\<close>

definition TracksInNet :: "EXTERN \<Rightarrow> BOARD \<Rightarrow> int \<Rightarrow> ptr list" where
  "TracksInNet ext b aNetCode =
     filter (\<lambda>t. m_NetCode (item b t) = aNetCode) (Visit_tracks b (Tracks ext))"

text \<open>
  The \<open>IO_ERROR\<close> thrown by \<open>TracksInNetBetweenPoints\<close>: "no clean path connecting start with
  goal", followed by the problem text of every path tried, in the order tried.
\<close>

datatype io_error = NoCleanPath wxPoint wxPoint "path_problem list"

text \<open>
  The loop over \<open>on_start_point\<close>.  \<open>in_between_pts\<close> is cleared before every attempt, so
  each call of \<open>checkConnectedTo\<close> starts from the empty list; \<open>problems\<close> is
  \<open>per_path_problem_text\<close>.
\<close>

fun explore_paths ::
  "BOARD \<Rightarrow> ptr list \<Rightarrow> wxPoint \<Rightarrow> wxPoint \<Rightarrow> ptr list \<Rightarrow> path_problem list
     \<Rightarrow> io_error + ptr list" where
  "explore_paths b in_net aStartPos aGoalPos [] problems =
     Inl (NoCleanPath aStartPos aGoalPos problems)"
| "explore_paths b in_net aStartPos aGoalPos (t # ts) problems =
     (case checkConnectedTo (item b) (m_Modules b) [] in_net aGoalPos aStartPos t of
        Inl ioe \<Rightarrow> explore_paths b in_net aStartPos aGoalPos ts (problems @ [ioe])
      | Inr in_between_pts \<Rightarrow> Inr in_between_pts)"

definition on_start_point :: "EXTERN \<Rightarrow> BOARD \<Rightarrow> wxPoint \<Rightarrow> int \<Rightarrow> ptr list" where
  "on_start_point ext b aStartPos aNetCode =
     filter (\<lambda>t. Type (item b t) = PCB_TRACE_T
                  \<and> (m_Start (item b t) = aStartPos \<or> m_End (item b t) = aStartPos))
       (TracksInNet ext b aNetCode)"

definition TracksInNetBetweenPoints ::
  "EXTERN \<Rightarrow> BOARD \<Rightarrow> wxPoint \<Rightarrow> wxPoint \<Rightarrow> int \<Rightarrow> io_error + ptr list" where
  "TracksInNetBetweenPoints ext b aStartPos aGoalPos aNetCode =
     explore_paths b (TracksInNet ext b aNetCode) aStartPos aGoalPos
       (on_start_point ext b aStartPos aNetCode) []"

text \<open>
  The states that the loop of \<open>checkConnectedTo\<close> passes through: \<open>cct_reaches s0 s\<close> holds
  when the loop, started in state \<open>s0\<close>, comes to the head of the loop in state \<open>s\<close>.  The
  \<open>next\<close> of such a state is a position of the traversal, its \<open>lset\<close> the layer mask there.
\<close>

inductive cct_reaches ::
  "store \<Rightarrow> ptr list \<Rightarrow> wxPoint \<Rightarrow> wxPoint \<Rightarrow> ptr list \<times> ptr list \<times> LSET \<times> wxPoint
     \<Rightarrow> ptr list \<times> ptr list \<times> LSET \<times> wxPoint \<Rightarrow> bool"
  for h mods aGoal aStart s0 where
    here: "cct_reaches h mods aGoal aStart s0 s0"
  | pass: "cct_reaches h mods aGoal aStart s0 (aList, in_net, lset, nxt) \<Longrightarrow>
           cct_body h mods aGoal aStart aList in_net lset nxt = Next aList' in_net' lset' nxt' \<Longrightarrow>
           cct_reaches h mods aGoal aStart s0 (aList', in_net', lset', nxt')"

text \<open>
  The attempt that \<open>TracksInNetBetweenPoints\<close> makes for one trace \<open>t\<close> leaving \<open>aStartPos\<close>:
  the call of \<open>checkConnectedTo\<close> on the cleared \<open>in_between_pts\<close>.
\<close>

definition path_attempt ::
  "EXTERN \<Rightarrow> BOARD \<Rightarrow> wxPoint \<Rightarrow> wxPoint \<Rightarrow> int \<Rightarrow> ptr \<Rightarrow> path_problem + ptr list" where
  "path_attempt ext b aStartPos aGoalPos aNetCode t =
     checkConnectedTo (item b) (m_Modules b) [] (TracksInNet ext b aNetCode) aGoalPos aStartPos t"

section \<open>Track tracer\<close>

subsection \<open>Searches the tracer relies on\<close>

text \<open>
  A pointer that walks the track list (\<open>segment\<close>, \<open>track\<close>, \<open>firstTrack\<close>) is the part of the list
  that starts at the item it points to: \<open>NULL\<close> is the empty list, the item is the head and
  \<open>Next()\<close> is the tail.
\<close>

text \<open>
  Modelled from the spec: the test that \<open>::GetTrack\<close> (\<open>class_track.cpp\<close>, not among the
  sources) applies to a track.  The walk enumerates the not-yet-visited segments and vias
  whose layer mask intersects the mask and which touch the position at one endpoint; the
  tracer's own comment says that \<open>GetTrack\<close> does not consider tracks flagged \<open>BUSY\<close>.
\<close>

definition touches_free :: "store \<Rightarrow> wxPoint \<Rightarrow> LSET \<Rightarrow> ptr \<Rightarrow> bool" where
  "touches_free h aPosition aLayerMask t \<longleftrightarrow>
     \<not> BUSY (h t) \<and> (aPosition = m_Start (h t) \<or> aPosition = m_End (h t))
       \<and> aLayerMask \<inter> GetLayerSet (h t) \<noteq> {}"

text \<open>
  Modelled from the spec: \<open>::GetTrack\<close> (\<open>class_track.cpp\<close>) is not among the sources.  It
  returns, from \<open>aStartTrace\<close> on in list order, the first track that passes this test, or
  null when there is none.
\<close>

definition GetTrack :: "store \<Rightarrow> ptr list \<Rightarrow> wxPoint \<Rightarrow> LSET \<Rightarrow> ptr list" where
  "GetTrack h aStartTrace aPosition aLayerMask =
     dropWhile (\<lambda>t. \<not> touches_free h aPosition aLayerMask t) aStartTrace"

text \<open>
  Modelled from the spec: the test that \<open>TRACK::GetVia\<close> (\<open>class_track.cpp\<close>, not among the
  sources) applies to a track: it is a via that exists at the position and intersects the
  layer mask.
\<close>

definition via_here :: "store \<Rightarrow> wxPoint \<Rightarrow> LSET \<Rightarrow> ptr \<Rightarrow> bool" where
  "via_here h aPosition aLayerMask t \<longleftrightarrow>
     Type (h t) = PCB_VIA_T \<and> m_Start (h t) = aPosition
       \<and> aLayerMask \<inter> GetLayerSet (h t) \<noteq> {}"

text \<open>
  Modelled from the spec: \<open>TRACK::GetVia\<close> (\<open>class_track.cpp\<close>) is not among the sources.  It
  returns the first via that passes this test, from the track it is called on, or null.
\<close>

definition GetVia :: "store \<Rightarrow> ptr list \<Rightarrow> wxPoint \<Rightarrow> LSET \<Rightarrow> ptr option" where
  "GetVia h aStartTrace aPosition aLayerMask = find (via_here h aPosition aLayerMask) aStartTrace"

text \<open>
  Modelled from the spec: \<open>MODULE::GetPad\<close> (\<open>class_module.cpp\<close>) is not among the sources.
  It returns a pad of the footprint that exists exactly at the position on the layer mask.
\<close>

definition MODULE_GetPad :: "store \<Rightarrow> ptr \<Rightarrow> wxPoint \<Rightarrow> LSET \<Rightarrow> ptr option" where
  "MODULE_GetPad h m aPosition aLayerSet = find (pad_here h aPosition aLayerSet) (m_Pads (h m))"

text \<open>
  \<open>BOARD::GetPad( aPosition, aLayerSet )\<close>: an empty layer set stands for all copper layers;
  the footprints are asked in list order.
\<close>

fun GetPad_modules :: "store \<Rightarrow> ptr list \<Rightarrow> wxPoint \<Rightarrow> LSET \<Rightarrow> ptr option" where
  "GetPad_modules h [] aPosition aLayerSet = None"
| "GetPad_modules h (m # ms) aPosition aLayerSet =
     (case MODULE_GetPad h m aPosition aLayerSet of
        Some pad \<Rightarrow> Some pad
      | None \<Rightarrow> GetPad_modules h ms aPosition aLayerSet)"

definition GetPad :: "EXTERN \<Rightarrow> BOARD \<Rightarrow> wxPoint \<Rightarrow> LSET \<Rightarrow> ptr option" where
  "GetPad ext b aPosition aLayerSet =
     GetPad_modules (item b) (m_Modules b) aPosition
       (if aLayerSet = {} then AllCuMask ext else aLayerSet)"

subsection \<open>\<open>BOARD::chainMarkedSegments\<close>\<close>

text \<open>
  The inner \<open>while\<close> loop that searches all segments connected to \<open>aPosition\<close>.  The outer
  \<open>None\<close> is the \<open>return\<close> taken at the second connected segment; \<open>Some candidate\<close> is the
  normal end of the loop with the candidate found, if any.
\<close>

function scan_segments ::
  "store \<Rightarrow> ptr option \<Rightarrow> wxPoint \<Rightarrow> LSET \<Rightarrow> ptr list \<Rightarrow> int \<Rightarrow> ptr option \<Rightarrow> ptr option option" where
  "scan_segments h via aPosition layer_set segment seg_count candidate =
     (case GetTrack h segment aPosition layer_set of
        [] \<Rightarrow> Some candidate
      | seg # nxt \<Rightarrow>
          if BUSY (h seg) then scan_segments h via aPosition layer_set nxt seg_count candidate
          else if Some seg = via
          then scan_segments h via aPosition layer_set nxt seg_count candidate
          else if seg_count + 1 = 1
          then scan_segments h via aPosition layer_set nxt (seg_count + 1) (Some seg)
          else None)"
  by pat_completeness auto

lemma GetTrack_Cons_length:
  "GetTrack h segment aPosition layer_set = seg # nxt \<Longrightarrow> length nxt < length segment"
proof -
  assume a: "GetTrack h segment aPosition layer_set = seg # nxt"
  have "length (GetTrack h segment aPosition layer_set) \<le> length segment"
    unfolding GetTrack_def by (rule length_dropWhile_le)
  with a show ?thesis by simp
qed

termination scan_segments
  by (relation "measure (\<lambda>(h, via, aPosition, layer_set, segment, seg_count, candidate).
        length segment)")
     (auto dest: GetTrack_Cons_length)

declare scan_segments.simps [simp del]

text \<open>
  One pass through the body of the \<open>for( ; ; )\<close> loop: either the function returns, with the
  board and \<open>aList\<close> as they are then, or the loop goes round again with a new board (the
  candidate flagged), position, layer set and list.
\<close>

datatype chain_outcome =
    Return BOARD "ptr list"
  | Again BOARD wxPoint LSET "ptr list"

definition chain_body :: "EXTERN \<Rightarrow> BOARD \<Rightarrow> wxPoint \<Rightarrow> LSET \<Rightarrow> ptr list \<Rightarrow> chain_outcome" where
  "chain_body ext b aPosition layer_set aList =
     (if GetPad ext b aPosition layer_set \<noteq> None then Return b aList
      else
        let via = GetVia (item b) (m_Track b) aPosition layer_set;
            layer_set1 = (case via of Some v \<Rightarrow> GetLayerSet (item b v) | None \<Rightarrow> layer_set);
            aList1 = (case via of Some v \<Rightarrow> aList @ [v] | None \<Rightarrow> aList)
        in case scan_segments (item b) via aPosition layer_set1 (m_Track b) 0 None of
             None \<Rightarrow> Return b aList1
           | Some None \<Rightarrow> Return b aList1
           | Some (Some candidate) \<Rightarrow>
               Again (SetState_BUSY b candidate True)
                 (if aPosition = m_Start (item b candidate) then m_End (item b candidate)
                  else m_Start (item b candidate))
                 (GetLayerSet (item b candidate))
                 (aList1 @ [candidate]))"

text \<open>The number of tracks of the board's list that are not flagged \<open>BUSY\<close>.\<close>

definition unvisited :: "BOARD \<Rightarrow> nat" where
  "unvisited b = length (filter (\<lambda>t. \<not> BUSY (item b t)) (m_Track b))"

lemma GetTrack_Cons_props:
  assumes "GetTrack h segment aPosition layer_set = seg # nxt"
  shows "seg \<in> set segment" and "touches_free h aPosition layer_set seg" and "set nxt \<subseteq> set segment"
proof -
  have e: "dropWhile (\<lambda>t. \<not> touches_free h aPosition layer_set t) segment = seg # nxt"
    using assms by (simp add: GetTrack_def)
  have "set (seg # nxt) \<subseteq> set segment"
    using set_dropWhileD [of _ "\<lambda>t. \<not> touches_free h aPosition layer_set t" segment] e by auto
  then show "seg \<in> set segment" and "set nxt \<subseteq> set segment" by auto
  show "touches_free h aPosition layer_set seg"
    using hd_dropWhile [of "\<lambda>t. \<not> touches_free h aPosition layer_set t" segment] e by auto
qed

lemma scan_segments_candidate:
  "scan_segments h via aPosition layer_set segment seg_count candidate = Some (Some c) \<Longrightarrow>
     candidate = Some c \<or> (c \<in> set segment \<and> \<not> BUSY (h c))"
proof (induction h via aPosition layer_set segment seg_count candidate rule: scan_segments.induct)
  case (1 h via aPosition layer_set segment seg_count candidate)
  show ?case
  proof (cases "GetTrack h segment aPosition layer_set")
    case Nil
    with "1.prems" show ?thesis by (simp add: scan_segments.simps)
  next
    case (Cons seg nxt)
    note props = GetTrack_Cons_props [OF Cons]
    from "1.prems" Cons "1.IH" [OF Cons] props show ?thesis
      by (auto simp: scan_segments.simps [of h via aPosition layer_set segment] split: if_splits)
  qed
qed

lemma SetState_BUSY_unvisited:
  assumes "c \<in> set (m_Track b)" and "\<not> BUSY (item b c)"
  shows "unvisited (SetState_BUSY b c True) < unvisited b"
proof -
  let ?P = "\<lambda>t. \<not> BUSY (item b t)"
  have eq: "filter (\<lambda>t. \<not> BUSY (item (SetState_BUSY b c True) t)) (m_Track b)
          = filter (\<lambda>t. t \<noteq> c) (filter ?P (m_Track b))"
    by (auto simp: SetState_BUSY_def intro: filter_cong)
  have "c \<in> set (filter ?P (m_Track b))" using assms by simp
  then have "length (filter (\<lambda>t. t \<noteq> c) (filter ?P (m_Track b))) < length (filter ?P (m_Track b))"
    by (rule length_filter_less) simp
  moreover have "m_Track (SetState_BUSY b c True) = m_Track b"
    by (simp add: SetState_BUSY_def)
  ultimately show ?thesis
    unfolding unvisited_def by (simp only: eq)
qed

lemma chain_body_Again:
  assumes "chain_body ext b aPosition layer_set aList = Again b' aPosition' layer_set' aList'"
  shows "\<exists>c. c \<in> set (m_Track b) \<and> \<not> BUSY (item b c) \<and> b' = SetState_BUSY b c True"
  using assms
  by (auto simp: chain_body_def Let_def split: if_splits option.splits dest!: scan_segments_candidate)

text \<open>
  The \<open>for( ; ; )\<close> loop: it ends when a pass through the body returns.  The number of
  tracks not flagged falls with every further pass, which bounds the loop.
\<close>

function chain_loop :: "EXTERN \<Rightarrow> BOARD \<Rightarrow> wxPoint \<Rightarrow> LSET \<Rightarrow> ptr list \<Rightarrow> BOARD \<times> ptr list" where
  "chain_loop ext b aPosition layer_set aList =
     (case chain_body ext b aPosition layer_set aList of
        Return b' aList' \<Rightarrow> (b', aList')
      | Again b' aPosition' layer_set' aList' \<Rightarrow> chain_loop ext b' aPosition' layer_set' aList')"
  by pat_completeness auto
termination chain_loop
  apply (relation "measure (\<lambda>(ext, b, aPosition, layer_set, aList). unvisited b)")
   apply simp
  apply (auto dest!: chain_body_Again intro: SetState_BUSY_unvisited)
  done

declare chain_loop.simps [simp del]

text \<open>\<open>BOARD::chainMarkedSegments\<close>: nothing is done on a board without tracks.\<close>

definition chainMarkedSegments ::
  "EXTERN \<Rightarrow> BOARD \<Rightarrow> wxPoint \<Rightarrow> LSET \<Rightarrow> ptr list \<Rightarrow> BOARD \<times> ptr list" where
  "chainMarkedSegments ext b aPosition aLayerSet aList =
     (if m_Track b = [] then (b, aList) else chain_loop ext b aPosition aLayerSet aList)"

subsection \<open>The step of the chain walk, in the words of its description\<close>

text \<open>
  The step as the description of the walk gives it, to be compared with \<open>chain_body\<close>:
  a pad exactly at the position on the layer mask stops the walk with nothing consumed;
  otherwise the first via at the position that intersects the mask, if there is one, is
  appended and the mask becomes the via's full layer span; then the candidates are the
  tracks of the board that are not visited, are not that via, touch the position with one
  end and intersect the mask.  With exactly one candidate it is marked visited and
  appended, the mask becomes the candidate's own layer set and the walk goes on from its
  other end; with none, or more than one, the walk stops where it is.
\<close>

definition pad_at :: "BOARD \<Rightarrow> wxPoint \<Rightarrow> LSET \<Rightarrow> bool" where
  "pad_at b aPosition layer_set \<longleftrightarrow>
     (\<exists>m \<in> set (m_Modules b). \<exists>p \<in> set (m_Pads (item b m)).
        m_Pos (item b p) = aPosition \<and> GetLayerSet (item b p) \<inter> layer_set \<noteq> {})"

definition candidates :: "BOARD \<Rightarrow> ptr option \<Rightarrow> wxPoint \<Rightarrow> LSET \<Rightarrow> ptr list" where
  "candidates b via aPosition layer_set =
     filter (\<lambda>t. \<not> BUSY (item b t) \<and> Some t \<noteq> via
                  \<and> (aPosition = m_Start (item b t) \<or> aPosition = m_End (item b t))
                  \<and> layer_set \<inter> GetLayerSet (item b t) \<noteq> {})
       (m_Track b)"

text \<open>The candidates among the tracks from a given point of the list on.\<close>

definition cand :: "store \<Rightarrow> ptr option \<Rightarrow> wxPoint \<Rightarrow> LSET \<Rightarrow> ptr list \<Rightarrow> ptr list" where
  "cand h via pos ls segs = filter (\<lambda>t. touches_free h pos ls t \<and> Some t \<noteq> via) segs"

definition chain_step_spec :: "BOARD \<Rightarrow> wxPoint \<Rightarrow> LSET \<Rightarrow> ptr list \<Rightarrow> chain_outcome" where
  "chain_step_spec b aPosition layer_set aList =
     (if pad_at b aPosition layer_set then Return b aList
      else
        let via = find (\<lambda>t. Type (item b t) = PCB_VIA_T \<and> m_Start (item b t) = aPosition
                              \<and> layer_set \<inter> GetLayerSet (item b t) \<noteq> {}) (m_Track b);
            lmask = (case via of Some v \<Rightarrow> GetLayerSet (item b v) | None \<Rightarrow> layer_set);
            chain = (case via of Some v \<Rightarrow> aList @ [v] | None \<Rightarrow> aList)
        in case candidates b via aPosition lmask of
             [c] \<Rightarrow> Again (SetState_BUSY b c True)
                      (if aPosition = m_Start (item b c) then m_End (item b c)
                       else m_Start (item b c))
                      (GetLayerSet (item b c)) (chain @ [c])
           | _ \<Rightarrow> Return b chain)"


subsection \<open>\<open>BOARD::MarkTrace\<close>\<close>

text \<open>The first loop of \<open>MarkTrace\<close>: the \<open>BUSY\<close> flag of every track of the board is cleared.\<close>

definition clear_BUSY_all :: "BOARD \<Rightarrow> BOARD" where
  "clear_BUSY_all b = fold (\<lambda>track b'. SetState_BUSY b' track False) (m_Track b) b"

text \<open>
  The marking of the chain, on the board where the initial item is already flagged.  \<open>None\<close>
  is the early return for a via with more than two segments connected ("the track is only
  this via"); otherwise the board after the calls of \<open>chainMarkedSegments\<close> comes back with
  the combined \<open>trackList\<close>.
\<close>

definition mark_chain :: "EXTERN \<Rightarrow> BOARD \<Rightarrow> ptr \<Rightarrow> (BOARD \<times> ptr list) option" where
  "mark_chain ext b aTrace =
     (let layer_set = GetLayerSet (item b aTrace);
          trackList = [aTrace]
      in if Type (item b aTrace) = PCB_VIA_T
         then
           let pos = m_Start (item b aTrace);
               segm1 = GetTrack (item b) (m_Track b) pos layer_set;
               segm2 = (if segm1 \<noteq> [] then GetTrack (item b) (tl segm1) pos layer_set else []);
               segm3 = (if segm2 \<noteq> [] then GetTrack (item b) (tl segm2) pos layer_set else [])
           in if segm3 \<noteq> [] then None
              else
                let r1 = (if segm1 \<noteq> []
                          then chainMarkedSegments ext b pos (GetLayerSet (item b (hd segm1)))
                                 trackList
                          else (b, trackList));
                    r2 = (if segm2 \<noteq> []
                          then chainMarkedSegments ext (fst r1) pos
                                 (GetLayerSet (item (fst r1) (hd segm2))) (snd r1)
                          else r1)
                in Some r2
         else
           let r1 = chainMarkedSegments ext b (m_Start (item b aTrace)) layer_set [];
               r2 = chainMarkedSegments ext (fst r1) (m_End (item (fst r1) aTrace)) layer_set []
           in Some (fst r2, trackList @ snd r1 @ snd r2))"

text \<open>
  The examination of the selected vias.  The inner \<open>while\<close> loop looks, among the further
  free tracks at the via, for one on a layer other than \<open>layer\<close>.
\<close>

function other_layer_found :: "store \<Rightarrow> ptr list \<Rightarrow> wxPoint \<Rightarrow> LSET \<Rightarrow> nat \<Rightarrow> bool" where
  "other_layer_found h track aPosition layer_set layer =
     (case GetTrack h track aPosition layer_set of
        [] \<Rightarrow> False
      | t # nxt \<Rightarrow>
          if layer \<noteq> m_Layer (h t) then True
          else other_layer_found h nxt aPosition layer_set layer)"
  by pat_completeness auto

termination other_layer_found
  by (relation "measure (\<lambda>(h, track, aPosition, layer_set, layer). length track)")
     (auto dest: GetTrack_Cons_length)

declare other_layer_found.simps [simp del]

text \<open>
  The body of the backwards loop over \<open>trackList\<close> for one entry: a via other than \<open>aTrace\<close>
  is flagged, and the flag is taken back when the via also joins free segments that lie on
  different layers.
\<close>

definition examine_via :: "ptr \<Rightarrow> ptr \<Rightarrow> BOARD \<Rightarrow> BOARD" where
  "examine_via aTrace it b =
     (if Type (item b it) \<noteq> PCB_VIA_T then b
      else if it = aTrace then b
      else
        let b1 = SetState_BUSY b it True;
            layer_set = GetLayerSet (item b1 it);
            track = GetTrack (item b1) (m_Track b1) (m_Start (item b1 it)) layer_set
        in case track of
             [] \<Rightarrow> b1
           | t # nxt \<Rightarrow>
               if other_layer_found (item b1) nxt (m_Start (item b1 it)) layer_set
                    (m_Layer (item b1 t))
               then SetState_BUSY b1 it False
               else b1)"

text \<open>The search for the first flagged track, in the board's list order.\<close>

definition first_BUSY :: "BOARD \<Rightarrow> ptr list" where
  "first_BUSY b = dropWhile (\<lambda>t. \<not> BUSY (item b t)) (m_Track b)"

text \<open>
  The length loop.  Its state is \<open>full_len\<close>, \<open>s_pad\<close>, \<open>e_pad\<close>, \<open>dist_fromstart\<close> and
  \<open>dist_fromend\<close>; \<open>take_pad\<close> is the block that stores a pad found on an end of the track, with
  its distance \<open>dist\<close>, in the first of \<open>s_pad\<close> and \<open>e_pad\<close> that is still free.
\<close>

type_synonym len_state = "real \<times> ptr option \<times> ptr option \<times> int \<times> int"

definition take_pad :: "ptr \<Rightarrow> int \<Rightarrow> len_state \<Rightarrow> len_state" where
  "take_pad pad dist_iu st =
     (case st of (full_len, s_pad, e_pad, dist_fromstart, dist_fromend) \<Rightarrow>
        if s_pad = None then (full_len, Some pad, e_pad, dist_iu, dist_fromend)
        else if e_pad = None then (full_len, s_pad, Some pad, dist_fromstart, dist_iu)
        else st)"

definition length_step :: "EXTERN \<Rightarrow> BOARD \<Rightarrow> ptr \<Rightarrow> len_state \<Rightarrow> len_state" where
  "length_step ext b track st =
     (case st of (full_len, s_pad, e_pad, dist_fromstart, dist_fromend) \<Rightarrow>
        if \<not> BUSY (item b track) then st
        else
          let layer_set = GetLayerSet (item b track);
              pad_on_start = GetPad ext b (m_Start (item b track)) layer_set;
              pad_on_end = GetPad ext b (m_End (item b track)) layer_set
          in if pad_on_start \<noteq> None \<and> pad_on_start = pad_on_end then st
             else
               let st1 = (full_len + GetLength ext (item b track),
                          s_pad, e_pad, dist_fromstart, dist_fromend)
               in if pad_on_start = None \<and> pad_on_end = None then st1
                  else
                    let st2 = (case pad_on_start of
                                 None \<Rightarrow> st1
                               | Some pad \<Rightarrow>
                                   take_pad pad
                                     (SEG_Length ext (m_Start (item b track)) (m_Pos (item b pad)))
                                     st1)
                    in case pad_on_end of
                         None \<Rightarrow> st2
                       | Some pad \<Rightarrow>
                           take_pad pad
                             (SEG_Length ext (m_End (item b track)) (m_Pos (item b pad)))
                             st2)"

text \<open>The largest \<open>int\<close>, the initial value of the two distances.\<close>

definition INT_MAX :: int where
  "INT_MAX = 2147483647"

text \<open>
  Modelled from the spec: \<open>DLIST\<close> (\<open>dlist.h\<close>) is not among the sources.  The board keeps
  its items in an ordered collection that supports insert and remove with positional
  ordering.  \<open>UnLink\<close>, and \<open>DLIST::Remove\<close> with it, takes an item out of the list.
\<close>

definition DLIST_UnLink :: "ptr list \<Rightarrow> ptr \<Rightarrow> ptr list" where
  "DLIST_UnLink l t = remove1 t l"

text \<open>
  Modelled from the spec: \<open>Next()\<close> of an item linked in a \<open>DLIST\<close> (not among the sources) is
  the item after it in the order of the collection, or null for the last one.
\<close>

definition DLIST_Next :: "ptr list \<Rightarrow> ptr \<Rightarrow> ptr option" where
  "DLIST_Next l t = (case dropWhile (\<lambda>x. x \<noteq> t) l of _ # n # _ \<Rightarrow> Some n | _ \<Rightarrow> None)"

text \<open>
  Modelled from the spec: \<open>DLIST::Insert\<close> (not among the sources) inserts an item at a
  position of the ordered collection: before the item given, or at the end when that one is
  null.
\<close>

definition DLIST_Insert :: "ptr list \<Rightarrow> ptr \<Rightarrow> ptr option \<Rightarrow> ptr list" where
  "DLIST_Insert l aNewElement aElementAfterMe =
     (case aElementAfterMe of
        None \<Rightarrow> l @ [aNewElement]
      | Some a \<Rightarrow> takeWhile (\<lambda>x. x \<noteq> a) l @ aNewElement # dropWhile (\<lambda>x. x \<noteq> a) l)"

text \<open>
  The reordering loop (\<open>aReorder\<close>): every flagged track after \<open>firstTrack\<close> is counted,
  unlinked and inserted again just after \<open>firstTrack\<close>.  The loop variable was advanced
  before the move, so the loop meets the tracks in their order before the call.
\<close>

definition reorder_step :: "ptr \<Rightarrow> ptr \<Rightarrow> BOARD \<times> int \<Rightarrow> BOARD \<times> int" where
  "reorder_step firstTrack track st =
     (case st of (b, busy_count) \<Rightarrow>
        if BUSY (item b track)
        then (b\<lparr>m_Track := DLIST_Insert (DLIST_UnLink (m_Track b) track) track
                               (DLIST_Next (DLIST_UnLink (m_Track b) track) firstTrack)\<rparr>,
              busy_count + 1)
        else st)"

text \<open>
  The loop taken when \<open>aReorder\<close> is false and \<open>aTraceLength\<close> is given: every flagged track
  from \<open>firstTrack\<close> on is counted and its flag is cleared.
\<close>

definition count_and_clear_step :: "ptr \<Rightarrow> BOARD \<times> int \<Rightarrow> BOARD \<times> int" where
  "count_and_clear_step track st =
     (case st of (b, busy_count) \<Rightarrow>
        if BUSY (item b track) then (SetState_BUSY b track False, busy_count + 1) else st)"

text \<open>
  The values that a call leaves behind: the pointer returned, what was stored through each
  of the three output pointers (\<open>None\<close> when nothing was stored through it) and the board.
\<close>

record MARKTRACE_RESULT =
  returned :: "ptr option"
  out_Count :: "int option"
  out_TraceLength :: "real option"
  out_PadToDieLength :: "real option"
  board_after :: BOARD

text \<open>
  The second half of \<open>MarkTrace\<close>, from the length calculation on, for a non-null
  \<open>firstTrack\<close>.
\<close>

definition MarkTrace_finish ::
  "EXTERN \<Rightarrow> BOARD \<Rightarrow> ptr list \<Rightarrow> bool \<Rightarrow> bool \<Rightarrow> bool \<Rightarrow> bool \<Rightarrow> MARKTRACE_RESULT" where
  "MarkTrace_finish ext b firstTrack aCount aTraceLength aPadToDieLength aReorder =
     (case fold (length_step ext b) firstTrack (0, None, None, INT_MAX, INT_MAX) of
        (full_len, s_pad, e_pad, dist_fromstart, dist_fromend) \<Rightarrow>
          let r = (if aReorder then fold (reorder_step (hd firstTrack)) (tl firstTrack) (b, 1)
                   else if aTraceLength then fold count_and_clear_step firstTrack (b, 0)
                   else (b, 1));
              full_len1 = (case s_pad of
                             Some pad \<Rightarrow> full_len + real_of_int dist_fromstart
                           | None \<Rightarrow> full_len);
              lenPadToDie1 = (case s_pad of
                                Some pad \<Rightarrow> real_of_int (m_LengthPadToDie (item b pad))
                              | None \<Rightarrow> 0);
              full_len2 = (case e_pad of
                             Some pad \<Rightarrow> full_len1 + real_of_int dist_fromend
                           | None \<Rightarrow> full_len1);
              lenPadToDie2 = (case e_pad of
                                Some pad \<Rightarrow> lenPadToDie1 + real_of_int (m_LengthPadToDie (item b pad))
                              | None \<Rightarrow> lenPadToDie1)
          in \<lparr>returned = Some (hd firstTrack),
              out_Count = (if aCount then Some (snd r) else None),
              out_TraceLength = (if aTraceLength then Some full_len2 else None),
              out_PadToDieLength = (if aPadToDieLength then Some lenPadToDie2 else None),
              board_after = fst r\<rparr>)"

text \<open>
  \<open>BOARD::MarkTrace\<close>.  \<open>aTrace\<close> is the pointer given (\<open>None\<close> for null); \<open>aCount\<close>,
  \<open>aTraceLength\<close> and \<open>aPadToDieLength\<close> say whether the output pointer is non-null.
\<close>

definition MarkTrace ::
  "EXTERN \<Rightarrow> BOARD \<Rightarrow> ptr option \<Rightarrow> bool \<Rightarrow> bool \<Rightarrow> bool \<Rightarrow> bool \<Rightarrow> MARKTRACE_RESULT" where
  "MarkTrace ext b aTrace aCount aTraceLength aPadToDieLength aReorder =
     (case aTrace of
        None \<Rightarrow>
          \<lparr>returned = None,
           out_Count = (if aCount then Some 0 else None),
           out_TraceLength = (if aTraceLength then Some 0 else None),
           out_PadToDieLength = None,
           board_after = b\<rparr>
      | Some trace \<Rightarrow>
          (case mark_chain ext (SetState_BUSY (clear_BUSY_all b) trace True) trace of
             None \<Rightarrow>
               \<lparr>returned = Some trace,
                out_Count = (if aCount then Some 1 else None),
                out_TraceLength = (if aTraceLength then Some 0 else None),
                out_PadToDieLength = None,
                board_after = SetState_BUSY (clear_BUSY_all b) trace True\<rparr>
           | Some (b1, trackList) \<Rightarrow>
               let b2 = fold (examine_via trace) (rev trackList) b1
               in if first_BUSY b2 = []
                  then \<lparr>returned = None,
                        out_Count = (if aCount then Some 0 else None),
                        out_TraceLength = (if aTraceLength then Some 0 else None),
                        out_PadToDieLength = None,
                        board_after = b2\<rparr>
                  else MarkTrace_finish ext b2 (first_BUSY b2) aCount aTraceLength
                         aPadToDieLength aReorder))"

section \<open>Adding and removing items\<close>

subsection \<open>The connectivity index\<close>

text \<open>
  Modelled from the spec: which items the connectivity index (\<open>connectivity.h\<close>, not among
  the sources) holds.  The index maintains the connectable items: pads, track segments, vias
  and zone outlines.
\<close>

definition connectable :: "KICAD_T \<Rightarrow> bool" where
  "connectable t \<longleftrightarrow> t = PCB_PAD_T \<or> t = PCB_TRACE_T \<or> t = PCB_VIA_T \<or> t = PCB_ZONE_AREA_T"

text \<open>
  Modelled from the spec: the endpoint coordinates that the index keeps for an item are the
  start and end of a track segment and the single coordinate of a via or pad; a zone outline
  is an area and has none.
\<close>

definition endpoints :: "ITEM \<Rightarrow> wxPoint list" where
  "endpoints it =
     (if Type it = PCB_TRACE_T then [m_Start it, m_End it]
      else if Type it = PCB_VIA_T then [m_Start it]
      else if Type it = PCB_PAD_T then [m_Pos it]
      else [])"

text \<open>
  Modelled from the spec: the registration of one connectable item by
  \<open>CONNECTIVITY_DATA::Add\<close> (not among the sources).  The item is registered under its
  current net id, that is, it is a member of that net afterwards, and its endpoint
  coordinates are indexed for exact-match lookup; an item with net id 0 appears in no member
  list.
\<close>

definition register_item :: "store \<Rightarrow> ptr \<Rightarrow> CONNECTIVITY_DATA \<Rightarrow> CONNECTIVITY_DATA" where
  "register_item h p c =
     (if connectable (Type (h p))
      then c\<lparr>net_members :=
               (if m_NetCode (h p) = 0 then net_members c
                else (net_members c)
                       (m_NetCode (h p) := insert p (net_members c (m_NetCode (h p))))),
             at_point := fold (\<lambda>pt f. f(pt := insert p (f pt))) (endpoints (h p)) (at_point c)\<rparr>
      else c)"

text \<open>
  Modelled from the spec: the deregistration of one connectable item by
  \<open>CONNECTIVITY_DATA::Remove\<close> (not among the sources): the item is no member of its net
  afterwards and is no longer indexed at its endpoint coordinates.
\<close>

definition deregister_item :: "store \<Rightarrow> ptr \<Rightarrow> CONNECTIVITY_DATA \<Rightarrow> CONNECTIVITY_DATA" where
  "deregister_item h p c =
     (if connectable (Type (h p))
      then c\<lparr>net_members :=
               (net_members c)(m_NetCode (h p) := net_members c (m_NetCode (h p)) - {p}),
             at_point := fold (\<lambda>pt f. f(pt := f pt - {p})) (endpoints (h p)) (at_point c)\<rparr>
      else c)"

text \<open>
  Modelled from the spec: \<open>CONNECTIVITY_DATA::Add\<close> (\<open>connectivity.h\<close>) is not among the
  sources.  It registers the item; the board holds footprints with pads, and for a
  footprint the connectable items registered are its pads, one by one.
\<close>

definition CONNECTIVITY_Add :: "store \<Rightarrow> CONNECTIVITY_DATA \<Rightarrow> ptr \<Rightarrow> CONNECTIVITY_DATA" where
  "CONNECTIVITY_Add h c p =
     (if Type (h p) = PCB_MODULE_T then fold (register_item h) (m_Pads (h p)) c
      else register_item h p c)"


subsection \<open>\<open>BOARD::Add\<close> and \<open>BOARD::Remove\<close>\<close>

datatype ADD_MODE = ADD_INSERT | ADD_APPEND

text \<open>
  The failures signalled through \<open>wxFAIL_MSG\<close>: "BOARD::Add() param error: aBoardItem NULL",
  "BOARD::Add() needs work: BOARD_ITEM type (n) not handled" and "BOARD::Remove() needs more
  ::Type() support".
\<close>

datatype wxFAIL =
    Add_param_NULL
  | Add_type_not_handled KICAD_T
  | Remove_type_not_supported

text \<open>
  Modelled from the spec: \<open>DLIST::PushBack\<close> and \<open>DLIST::PushFront\<close> (\<open>dlist.h\<close>, not among the
  sources) insert an item at the end and at the front of the ordered collection.
\<close>

definition DLIST_PushBack :: "ptr list \<Rightarrow> ptr \<Rightarrow> ptr list" where
  "DLIST_PushBack l aNewElement = l @ [aNewElement]"

definition DLIST_PushFront :: "ptr list \<Rightarrow> ptr \<Rightarrow> ptr list" where
  "DLIST_PushFront l aNewElement = aNewElement # l"

text \<open>
  Modelled from the spec: \<open>NETINFO_LIST::AppendNet\<close> and \<open>NETINFO_LIST::RemoveNet\<close> are not
  among the sources.  The net registry is kept as the list of its net items; \<open>AppendNet\<close>
  adds the item to the registry and \<open>RemoveNet\<close> takes it out.
\<close>

definition AppendNet :: "ptr list \<Rightarrow> ptr \<Rightarrow> ptr list" where
  "AppendNet l aNewElement = l @ [aNewElement]"


text \<open>
  The \<open>switch\<close> of \<open>BOARD::Add\<close>; \<open>None\<close> is the \<open>default\<close> branch, which returns from \<open>Add\<close>.
  \<open>m_markers\<close> and \<open>m_ZoneDescriptorList\<close> are vectors, the other containers are \<open>DLIST\<close>s.
\<close>

definition Add_switch :: "EXTERN \<Rightarrow> BOARD \<Rightarrow> ptr \<Rightarrow> ADD_MODE \<Rightarrow> BOARD option" where
  "Add_switch ext b p aMode =
     (case Type (item b p) of
        PCB_NETINFO_T \<Rightarrow> Some (b\<lparr>m_NetInfo := AppendNet (m_NetInfo b) p\<rparr>)
      | PCB_MARKER_T \<Rightarrow> Some (b\<lparr>m_markers := m_markers b @ [p]\<rparr>)
      | PCB_ZONE_AREA_T \<Rightarrow> Some (b\<lparr>m_ZoneDescriptorList := m_ZoneDescriptorList b @ [p]\<rparr>)
      | PCB_TRACE_T \<Rightarrow>
          Some (b\<lparr>m_Track := (if aMode = ADD_APPEND then DLIST_PushBack (m_Track b) p
                               else DLIST_Insert (m_Track b) p (GetBestInsertPoint ext b p))\<rparr>)
      | PCB_VIA_T \<Rightarrow>
          Some (b\<lparr>m_Track := (if aMode = ADD_APPEND then DLIST_PushBack (m_Track b) p
                               else DLIST_Insert (m_Track b) p (GetBestInsertPoint ext b p))\<rparr>)
      | PCB_ZONE_T \<Rightarrow>
          Some (b\<lparr>m_Zone := (if aMode = ADD_APPEND then DLIST_PushBack (m_Zone b) p
                              else DLIST_PushFront (m_Zone b) p)\<rparr>)
      | PCB_MODULE_T \<Rightarrow>
          Some (b\<lparr>m_Modules := (if aMode = ADD_APPEND then DLIST_PushBack (m_Modules b) p
                                 else DLIST_PushFront (m_Modules b) p),
                   m_Status_Pcb := 0\<rparr>)
      | PCB_DIMENSION_T \<Rightarrow>
          Some (b\<lparr>m_Drawings := (if aMode = ADD_APPEND then DLIST_PushBack (m_Drawings b) p
                                  else DLIST_PushFront (m_Drawings b) p)\<rparr>)
      | PCB_LINE_T \<Rightarrow>
          Some (b\<lparr>m_Drawings := (if aMode = ADD_APPEND then DLIST_PushBack (m_Drawings b) p
                                  else DLIST_PushFront (m_Drawings b) p)\<rparr>)
      | PCB_TEXT_T \<Rightarrow>
          Some (b\<lparr>m_Drawings := (if aMode = ADD_APPEND then DLIST_PushBack (m_Drawings b) p
                                  else DLIST_PushFront (m_Drawings b) p)\<rparr>)
      | PCB_TARGET_T \<Rightarrow>
          Some (b\<lparr>m_Drawings := (if aMode = ADD_APPEND then DLIST_PushBack (m_Drawings b) p
                                  else DLIST_PushFront (m_Drawings b) p)\<rparr>)
      | _ \<Rightarrow> None)"

text \<open>\<open>aBoardItem->SetParent( this )\<close>.\<close>

definition SetParent_board :: "BOARD \<Rightarrow> ptr \<Rightarrow> BOARD" where
  "SetParent_board b p = b\<lparr>item := (item b)(p := (item b p)\<lparr>m_Parent := ParentBoard\<rparr>)\<rparr>"

text \<open>\<open>m_connectivity->Add( aBoardItem )\<close> and \<open>m_connectivity->Remove( aBoardItem )\<close>.\<close>

definition connectivity_Add :: "BOARD \<Rightarrow> ptr \<Rightarrow> BOARD" where
  "connectivity_Add b p = b\<lparr>m_connectivity := CONNECTIVITY_Add (item b) (m_connectivity b) p\<rparr>"


text \<open>
  \<open>BOARD::Add\<close>.  The result is the failure signalled, if any, and the board when \<open>Add\<close>
  returns.
\<close>

definition Add :: "EXTERN \<Rightarrow> BOARD \<Rightarrow> ptr option \<Rightarrow> ADD_MODE \<Rightarrow> wxFAIL option \<times> BOARD" where
  "Add ext b aBoardItem aMode =
     (case aBoardItem of
        None \<Rightarrow> (Some Add_param_NULL, b)
      | Some p \<Rightarrow>
          (case Add_switch ext b p aMode of
             None \<Rightarrow> (Some (Add_type_not_handled (Type (item b p))), b)
           | Some b1 \<Rightarrow> (None, connectivity_Add (SetParent_board b1 p) p)))"



subsection \<open>What the index holds for an item\<close>





subsection \<open>The exchange of a footprint in \<open>BOARD::ReplaceNetlist\<close>\<close>


section \<open>Example boards\<close>

text \<open>
  Concrete items and boards on which the properties below are evaluated.  A segment is
  given by its two ends, its layer and its net code; a pad by its position, its layer mask
  and its net code; a footprint by its pads.
\<close>

definition blank_item :: ITEM where
  "blank_item =
     \<lparr>Type = PCB_TEXT_T, m_Start = (0, 0), m_End = (0, 0), m_Pos = (0, 0), m_Layer = 0,
      m_LayerSet = {}, m_NetCode = 0, BUSY = False, m_Pads = [], m_LengthPadToDie = 0,
      m_Parent = NoParent\<rparr>"

definition track_item :: "wxPoint \<Rightarrow> wxPoint \<Rightarrow> nat \<Rightarrow> int \<Rightarrow> ITEM" where
  "track_item s e l n =
     blank_item\<lparr>Type := PCB_TRACE_T, m_Start := s, m_End := e, m_Layer := l, m_NetCode := n\<rparr>"

definition pad_item :: "wxPoint \<Rightarrow> LSET \<Rightarrow> int \<Rightarrow> ITEM" where
  "pad_item pos ls n = blank_item\<lparr>Type := PCB_PAD_T, m_Pos := pos, m_LayerSet := ls, m_NetCode := n\<rparr>"

definition module_item :: "ptr list \<Rightarrow> ITEM" where
  "module_item pads = blank_item\<lparr>Type := PCB_MODULE_T, m_Pads := pads\<rparr>"

definition empty_index :: CONNECTIVITY_DATA where
  "empty_index = \<lparr>net_members = (\<lambda>_. {}), at_point = (\<lambda>_. {})\<rparr>"

definition board_of :: "ptr list \<Rightarrow> ptr list \<Rightarrow> store \<Rightarrow> BOARD" where
  "board_of tracks modules h =
     \<lparr>m_NetInfo = [], m_markers = [], m_ZoneDescriptorList = [], m_Track = tracks,
      m_Zone = [], m_Modules = modules, m_Drawings = [], m_Status_Pcb = 0,
      m_connectivity = empty_index, item = h\<rparr>"

definition extern0 :: EXTERN where
  "extern0 =
     \<lparr>AllCuMask = {0..<32}, Tracks = [PCB_TRACE_T, PCB_VIA_T], GetLength = (\<lambda>_. 0),
      SEG_Length = (\<lambda>_ _. 0), GetBestInsertPoint = (\<lambda>_ _. None)\<rparr>"

text \<open>
  Net 1 is made of three segments on layer 0 in a straight, unbranched line
  (0,0) - (10,0) - (20,0) - (30,0); there is no pad and no via.
\<close>

definition line3 :: BOARD where
  "line3 =
     board_of [1, 2, 3] []
       ((\<lambda>_. blank_item)
          (1 := track_item (0, 0) (10, 0) 0 1,
           2 := track_item (10, 0) (20, 0) 0 1,
           3 := track_item (20, 0) (30, 0) 0 1))"

text \<open>The same line, with one more segment of net 1 that touches nothing.\<close>

definition line3_spare :: BOARD where
  "line3_spare =
     board_of [1, 2, 3, 4] []
       ((\<lambda>_. blank_item)
          (1 := track_item (0, 0) (10, 0) 0 1,
           2 := track_item (10, 0) (20, 0) 0 1,
           3 := track_item (20, 0) (30, 0) 0 1,
           4 := track_item (100, 100) (110, 100) 0 1))"

text \<open>
  Net 1 is made of three segments on layer 0: from the start (0,0) a segment out to (10,0),
  a segment from (10,0) back to (0,0), and a segment from (0,0) to (30,0).
\<close>

definition lobe :: BOARD where
  "lobe =
     board_of [1, 2, 3] []
       ((\<lambda>_. blank_item)
          (1 := track_item (0, 0) (10, 0) 0 1,
           2 := track_item (10, 0) (0, 0) 0 1,
           3 := track_item (0, 0) (30, 0) 0 1))"

text \<open>
  Net 1 is the single segment (0,0) - (10,0) on layer 0, and a pad on layer 0 sits exactly
  at (10,0).
\<close>

definition stub_pad :: BOARD where
  "stub_pad =
     board_of [1] [8]
       ((\<lambda>_. blank_item)
          (1 := track_item (0, 0) (10, 0) 0 1,
           8 := module_item [9],
           9 := pad_item (10, 0) {0} 1))"

text \<open>The line of three segments with a pad on layer 0 exactly at the intermediate point (20,0).\<close>

definition line3_pad :: BOARD where
  "line3_pad =
     board_of [1, 2, 3] [8]
       ((\<lambda>_. blank_item)
          (1 := track_item (0, 0) (10, 0) 0 1,
           2 := track_item (10, 0) (20, 0) 0 1,
           3 := track_item (20, 0) (30, 0) 0 1,
           8 := module_item [9],
           9 := pad_item (20, 0) {0} 1))"

definition via_item :: "wxPoint \<Rightarrow> LSET \<Rightarrow> int \<Rightarrow> ITEM" where
  "via_item pos ls n =
     blank_item\<lparr>Type := PCB_VIA_T, m_Start := pos, m_End := pos, m_LayerSet := ls, m_NetCode := n\<rparr>"

text \<open>
  A segment on layer 0 from (0,0) to (10,0), already flagged \<open>BUSY\<close>; a via at (10,0)
  through layers 0 and 31; a segment on layer 31 from (10,0) to (20,0); and a footprint with
  a pad on layer 31 exactly at (20,0).
\<close>

definition via_board :: BOARD where
  "via_board =
     board_of [1, 2, 3] [8]
       ((\<lambda>_. blank_item)
          (1 := (track_item (0, 0) (10, 0) 0 1)\<lparr>BUSY := True\<rparr>,
           2 := via_item (10, 0) {0, 31} 1,
           3 := track_item (10, 0) (20, 0) 31 1,
           8 := module_item [9],
           9 := pad_item (20, 0) {31} 1))"

text \<open>
  A via at (10,0) through layers 0 and 31 where three segments meet: two on layer 0, from
  (0,0) and to (20,0), and one on layer 31 to (10,10).
\<close>

definition via_star :: BOARD where
  "via_star =
     board_of [1, 2, 3, 4] []
       ((\<lambda>_. blank_item)
          (1 := track_item (0, 0) (10, 0) 0 1,
           2 := track_item (10, 0) (20, 0) 0 1,
           3 := track_item (10, 0) (10, 10) 31 1,
           4 := via_item (10, 0) {0, 31} 1))"

text \<open>
  A closed loop of three segments on layer 0, (0,0) - (10,0) - (10,10) - (0,0), the first of
  them already flagged \<open>BUSY\<close>.
\<close>

definition ring3 :: BOARD where
  "ring3 =
     board_of [1, 2, 3] []
       ((\<lambda>_. blank_item)
          (1 := (track_item (0, 0) (10, 0) 0 1)\<lparr>BUSY := True\<rparr>,
           2 := track_item (10, 0) (10, 10) 0 1,
           3 := track_item (10, 10) (0, 0) 0 1))"

text \<open>The line of three segments, with a further segment of net 1 in the store, not on the board.\<close>

definition line3_new :: BOARD where
  "line3_new = line3\<lparr>item := (item line3)(4 := track_item (30, 0) (40, 0) 0 1)\<rparr>"

text \<open>
  A board with footprint 8, whose pad 9 of net 5 is registered in the index, and in the
  store a second footprint 10 with a pad 11 of net 5.
\<close>

definition placed_footprint :: BOARD where
  "placed_footprint =
     (board_of [] [8]
       ((\<lambda>_. blank_item)
          (8 := (module_item [9])\<lparr>m_Parent := ParentBoard\<rparr>,
           9 := pad_item (5, 5) {0} 5,
           10 := module_item [11],
           11 := pad_item (7, 7) {0} 5)))
     \<lparr>m_connectivity :=
        \<lparr>net_members = (\<lambda>_. {})(5 := {9}), at_point = (\<lambda>_. {})((5, 5) := {9})\<rparr>\<rparr>"

lemmas example_defs =
  line3_def line3_spare_def lobe_def stub_pad_def line3_pad_def via_board_def via_star_def
  ring3_def board_of_def line3_new_def placed_footprint_def track_item_def pad_item_def
  module_item_def via_item_def blank_item_def empty_index_def extern0_def

section \<open>Properties\<close>

subsection \<open>Null arguments\<close>

text \<open>
  C9.  \<open>Add\<close> called with a null item signals the failure "param error: aBoardItem NULL"
  and returns at once; the board it returns with is the board it was called on, so the item
  containers, the net registry and the connectivity index are all unmodified.
\<close>

theorem Add_null_item_unmodified:
  "Add ext b None aMode = (Some Add_param_NULL, b)"
  by (simp add: Add_def)

text \<open>
  C10.  \<open>MarkTrace\<close> called with a null starting track returns null, has stored 0 through
  the count pointer and through the trace-length pointer when they are supplied, stores
  nothing through the pad-to-die pointer and leaves the board, hence the state of every
  item, as it was.
\<close>

theorem MarkTrace_null_trace:
  "MarkTrace ext b None aCount aTraceLength aPadToDieLength aReorder =
     \<lparr>returned = None,
      out_Count = (if aCount then Some 0 else None),
      out_TraceLength = (if aTraceLength then Some 0 else None),
      out_PadToDieLength = None,
      board_after = b\<rparr>"
  by (simp add: MarkTrace_def)

subsection \<open>Path between two points\<close>

text \<open>
  C1.  A net whose copper is exactly three segments in an unbranched chain
  (0,0) - (10,0) - (20,0) - (30,0): the claim is that \<open>TracksInNetBetweenPoints\<close> from (0,0)
  to (30,0) succeeds with the three segments in order.  The code throws instead: the walk
  takes the third segment, \<open>in_net\<close> is then empty, and the loop test \<open>in_net.size()\<close> ends the
  loop before \<open>next == aGoal\<close> is looked at, so that the only path is reported as "not enough
  tracks".
\<close>

theorem TracksInNetBetweenPoints_three_segment_chain:
  "TracksInNetBetweenPoints extern0 line3 (0, 0) (30, 0) 1 =
     Inl (NoCleanPath (0, 0) (30, 0) [NotEnoughTracks (0, 0) (30, 0)])"
  by code_simp

text \<open>
  With one more track in the net, which touches nothing, the same query on the same chain
  returns the three segments in order: the failure above comes from the exhausted list, not
  from the copper.
\<close>

lemma TracksInNetBetweenPoints_chain_and_spare_track:
  "TracksInNetBetweenPoints extern0 line3_spare (0, 0) (30, 0) 1 = Inr [1, 2, 3]"
  by code_simp

lemma explore_paths_first_success:
  "explore_paths b (TracksInNet ext b aNetCode) aStartPos aGoalPos ts problems =
     (case dropWhile (\<lambda>t. isl (path_attempt ext b aStartPos aGoalPos aNetCode t)) ts of
        [] \<Rightarrow> Inl (NoCleanPath aStartPos aGoalPos
                 (problems @ map (\<lambda>t. projl (path_attempt ext b aStartPos aGoalPos aNetCode t)) ts))
      | t # _ \<Rightarrow> Inr (projr (path_attempt ext b aStartPos aGoalPos aNetCode t)))"
proof (induction ts arbitrary: problems)
  case Nil
  show ?case by simp
next
  case (Cons a ts)
  show ?case
  proof (cases "path_attempt ext b aStartPos aGoalPos aNetCode a")
    case (Inl e)
    then have "explore_paths b (TracksInNet ext b aNetCode) aStartPos aGoalPos (a # ts) problems
        = explore_paths b (TracksInNet ext b aNetCode) aStartPos aGoalPos ts (problems @ [e])"
      by (simp add: path_attempt_def)
    with Inl Cons.IH [of "problems @ [e]"] show ?thesis
      by (simp cong: list.case_cong)
  next
    case (Inr l)
    then show ?thesis by (simp add: path_attempt_def)
  qed
qed

text \<open>
  \<open>TracksInNetBetweenPoints\<close> tries the traces that touch the start position in the order of
  \<open>on_start_point\<close>.  It skips the candidates whose check throws; the first candidate whose
  check returns decides the call, which returns the chain collected by that check.  The call
  throws only when no candidate is left, and what it throws then carries the reason of
  every candidate, in the order tried.
\<close>

lemma TracksInNetBetweenPoints_first_passing_check:
  "TracksInNetBetweenPoints ext b aStartPos aGoalPos aNetCode =
     (case dropWhile (\<lambda>t. isl (path_attempt ext b aStartPos aGoalPos aNetCode t))
             (on_start_point ext b aStartPos aNetCode) of
        [] \<Rightarrow> Inl (NoCleanPath aStartPos aGoalPos
                 (map (\<lambda>t. projl (path_attempt ext b aStartPos aGoalPos aNetCode t))
                    (on_start_point ext b aStartPos aNetCode)))
      | t # _ \<Rightarrow> Inr (projr (path_attempt ext b aStartPos aGoalPos aNetCode t)))"
  by (simp add: TracksInNetBetweenPoints_def explore_paths_first_success cong: list.case_cong)

text \<open>
  C6.  The claim is that the call returns the chain of the first candidate whose traversal
  reaches the goal.  On the board \<open>lobe\<close>, for the query from (0,0) to (30,0) in net 1, the
  candidates are the segments 1, 2 and 3 in this order.  The traversal of candidate 1
  starts with \<open>aList\<close> = [1], \<open>in_net\<close> = [2, 3] and \<open>next\<close> = (10,0); two passes through the loop
  take it over segment 2 and segment 3 to \<open>next\<close> = (30,0), the goal, with the chain 1, 2, 3
  collected.  No track of the net is left then, so the loop test ends the loop before
  \<open>next == aGoal\<close> is looked at, and the candidate is rejected with "not enough tracks"; so is
  candidate 2.  What the call returns is the chain of candidate 3, the last of the three
  candidates whose traversals reach the goal, not the chain of the first.  The loop test
  that precedes the goal test is the one that rejects the line of three segments above.
\<close>

theorem TracksInNetBetweenPoints_rejects_candidate_at_goal:
  "on_start_point extern0 lobe (0, 0) 1 = [1, 2, 3]
   \<and> removeTrack (TracksInNet extern0 lobe 1) 1 = [2, 3]
   \<and> otherEnd (item lobe 1) (0, 0) = (10, 0)
   \<and> cct_body (item lobe) (m_Modules lobe) (30, 0) (0, 0) [1] [2, 3] {0} (10, 0)
       = Next [1, 2] [3] {0} (0, 0)
   \<and> cct_body (item lobe) (m_Modules lobe) (30, 0) (0, 0) [1, 2] [3] {0} (0, 0)
       = Next [1, 2, 3] [] {0} (30, 0)
   \<and> cct_body (item lobe) (m_Modules lobe) (30, 0) (0, 0) [1, 2, 3] [] {0} (30, 0)
       = Done (Inl (NotEnoughTracks (0, 0) (30, 0)))
   \<and> path_attempt extern0 lobe (0, 0) (30, 0) 1 1 = Inl (NotEnoughTracks (0, 0) (30, 0))
   \<and> path_attempt extern0 lobe (0, 0) (30, 0) 1 2 = Inl (NotEnoughTracks (0, 0) (30, 0))
   \<and> path_attempt extern0 lobe (0, 0) (30, 0) 1 3 = Inr [3]
   \<and> TracksInNetBetweenPoints extern0 lobe (0, 0) (30, 0) 1 = Inr [3]"
  by code_simp

lemma cct_reaches_same_result:
  "cct_reaches h mods aGoal aStart s0 s \<Longrightarrow>
   (case s0 of (aList0, in_net0, lset0, nxt0) \<Rightarrow>
      cct_loop h mods aGoal aStart aList0 in_net0 lset0 nxt0)
     = (case s of (aList, in_net, lset, nxt) \<Rightarrow>
          cct_loop h mods aGoal aStart aList in_net lset nxt)"
proof (induction rule: cct_reaches.induct)
  case here
  show ?case by simp
next
  case (pass aList in_net lset nxt aList' in_net' lset' nxt')
  then show ?case
    by (simp add: cct_loop.simps [of h mods aGoal aStart aList in_net lset nxt])
qed

lemma GetPadFast_found:
  "m \<in> set mods \<Longrightarrow> p \<in> set (m_Pads (h m)) \<Longrightarrow> pad_here h aPosition aLayerSet p \<Longrightarrow>
   GetPadFast h mods aPosition aLayerSet \<noteq> None"
proof (induction mods)
  case Nil
  then show ?case by simp
next
  case (Cons a mods)
  show ?case
  proof (cases "find (pad_here h aPosition aLayerSet) (m_Pads (h a))")
    case None
    then have "\<forall>x \<in> set (m_Pads (h a)). \<not> pad_here h aPosition aLayerSet x"
      by (simp add: find_None_iff)
    with Cons None show ?thesis by auto
  next
    case (Some q)
    then show ?thesis by simp
  qed
qed

text \<open>
  C7, as stated, fails.  On \<open>stub_pad\<close> the only trace leaving (0,0) ends at (10,0), which is
  not the goal (30,0); a pad sits exactly there, on the layer of the trace, and
  \<open>GetPadFast\<close> finds it.  The attempt does not fail with the intervening-pad reason: no other
  track of the net is left, the loop is not entered, and the reason is "not enough tracks".
\<close>

theorem intervening_pad_after_last_track_counterexample:
  "GetPadFast (item stub_pad) (m_Modules stub_pad) (10, 0) {0} = Some 9
   \<and> path_attempt extern0 stub_pad (0, 0) (30, 0) 1 1 = Inl (NotEnoughTracks (0, 0) (30, 0))"
  by code_simp

text \<open>
  C7, amended.  During the path check that \<open>TracksInNetBetweenPoints\<close> makes for a trace
  \<open>t\<close>, whenever the traversal is at a position \<open>next\<close> with layer mask \<open>lset\<close> while tracks of
  the net are still unconsumed (\<open>in_net\<close> is not empty), \<open>next\<close> is not the goal, and some pad of
  the board has its position equal to \<open>next\<close> and a layer set that intersects \<open>lset\<close>, the
  attempt fails with the intervening-pad reason for \<open>next\<close>; whether copper goes on from there
  plays no part.
\<close>

theorem checkConnectedTo_intervening_pad:
  assumes "cct_reaches (item b) (m_Modules b) aGoalPos aStartPos
             ([t], removeTrack (TracksInNet ext b aNetCode) t, {m_Layer (item b t)},
              otherEnd (item b t) aStartPos)
             (aList, in_net, lset, nxt)"
    and "in_net \<noteq> []" and "nxt \<noteq> aGoalPos"
    and "m \<in> set (m_Modules b)" and "p \<in> set (m_Pads (item b m))"
    and "m_Pos (item b p) = nxt" and "GetLayerSet (item b p) \<inter> lset \<noteq> {}"
  shows "path_attempt ext b aStartPos aGoalPos aNetCode t
           = Inl (InterveningPad nxt aStartPos aGoalPos)"
proof -
  have "pad_here (item b) nxt lset p"
    using assms(6,7) by (simp add: pad_here_def)
  then have pad: "GetPadFast (item b) (m_Modules b) nxt lset \<noteq> None"
    using assms(4,5) by (rule GetPadFast_found [rotated 2])
  have "cct_body (item b) (m_Modules b) aGoalPos aStartPos aList in_net lset nxt
          = Done (Inl (InterveningPad nxt aStartPos aGoalPos))"
    using assms(2,3) pad by (simp add: cct_body_def)
  then have "cct_loop (item b) (m_Modules b) aGoalPos aStartPos aList in_net lset nxt
          = Inl (InterveningPad nxt aStartPos aGoalPos)"
    by (simp add: cct_loop.simps [of _ _ _ _ aList in_net lset nxt])
  with cct_reaches_same_result [OF assms(1)] show ?thesis
    by (simp add: path_attempt_def checkConnectedTo_def)
qed

text \<open>
  Witness for C7, amended: on \<open>line3_pad\<close> the walk from (0,0) towards (30,0) takes the
  first two segments and stands at (20,0) with the third segment unconsumed; the pad there
  makes the attempt fail with the intervening-pad reason, although the third segment would
  lead on to the goal.
\<close>

theorem checkConnectedTo_intervening_pad_witness:
  "path_attempt extern0 line3_pad (0, 0) (30, 0) 1 1 = Inl (InterveningPad (20, 0) (0, 0) (30, 0))"
proof -
  have r0: "cct_reaches (item line3_pad) (m_Modules line3_pad) (30, 0) (0, 0)
              ([1], removeTrack (TracksInNet extern0 line3_pad 1) 1, {m_Layer (item line3_pad 1)},
               otherEnd (item line3_pad 1) (0, 0))
              ([1], [2, 3], {0}, (10, 0))"
    by (simp add: removeTrack_def TracksInNet_def otherEnd_def example_defs cct_reaches.here)
  have b0: "cct_body (item line3_pad) (m_Modules line3_pad) (30, 0) (0, 0) [1] [2, 3] {0} (10, 0)
              = Next [1, 2] [3] {0} (20, 0)"
    by code_simp
  have r1: "cct_reaches (item line3_pad) (m_Modules line3_pad) (30, 0) (0, 0)
              ([1], removeTrack (TracksInNet extern0 line3_pad 1) 1, {m_Layer (item line3_pad 1)},
               otherEnd (item line3_pad 1) (0, 0))
              ([1, 2], [3], {0}, (20, 0))"
    using cct_reaches.pass [OF r0 b0] .
  show ?thesis
    using checkConnectedTo_intervening_pad [OF r1, of 8 9]
    by (simp add: example_defs GetLayerSet_def)
qed

subsection \<open>The chain walk\<close>

lemma find_Some_holds: "find P xs = Some x \<Longrightarrow> x \<in> set xs \<and> P x"
  by (induction xs) (auto split: if_splits)

lemma GetPad_modules_None_iff:
  "GetPad_modules h mods aPosition ls = None \<longleftrightarrow>
     (\<forall>m \<in> set mods. \<forall>p \<in> set (m_Pads (h m)). \<not> pad_here h aPosition ls p)"
proof (induction mods)
  case Nil
  show ?case by simp
next
  case (Cons a mods)
  show ?case
  proof (cases "find (pad_here h aPosition ls) (m_Pads (h a))")
    case None
    then have "\<forall>p \<in> set (m_Pads (h a)). \<not> pad_here h aPosition ls p"
      by (simp add: find_None_iff)
    with None Cons show ?thesis by (simp add: MODULE_GetPad_def)
  next
    case (Some q)
    from find_Some_holds [OF Some] Some show ?thesis
      by (auto simp: MODULE_GetPad_def)
  qed
qed

lemma GetPad_pad_at:
  "layer_set \<noteq> {} \<Longrightarrow> GetPad ext b aPosition layer_set \<noteq> None \<longleftrightarrow> pad_at b aPosition layer_set"
  by (simp add: GetPad_def GetPad_modules_None_iff pad_at_def pad_here_def)

lemma GetTrack_filter:
  "GetTrack h segs pos ls = seg # nxt \<Longrightarrow>
   filter (touches_free h pos ls) segs = seg # filter (touches_free h pos ls) nxt"
proof -
  assume a: "GetTrack h segs pos ls = seg # nxt"
  let ?P = "touches_free h pos ls"
  have "segs = takeWhile (\<lambda>t. \<not> ?P t) segs @ dropWhile (\<lambda>t. \<not> ?P t) segs" by simp
  then have "filter ?P segs = filter ?P (takeWhile (\<lambda>t. \<not> ?P t) segs) @ filter ?P (seg # nxt)"
    using a by (metis GetTrack_def filter_append)
  moreover have "filter ?P (takeWhile (\<lambda>t. \<not> ?P t) segs) = []"
    by (auto simp: filter_empty_conv dest: set_takeWhileD)
  moreover have "?P seg" using GetTrack_Cons_props(2) [OF a] .
  ultimately show ?thesis by simp
qed

lemma GetTrack_Nil_filter:
  "GetTrack h segs pos ls = [] \<Longrightarrow> filter (touches_free h pos ls) segs = []"
  by (auto simp: GetTrack_def filter_empty_conv dropWhile_eq_Nil_conv)

lemma cand_Cons:
  assumes "GetTrack h segs pos ls = seg # nxt"
  shows "cand h via pos ls segs = (if Some seg \<noteq> via then [seg] else []) @ cand h via pos ls nxt"
proof -
  have "cand h via pos ls segs = filter (\<lambda>t. Some t \<noteq> via) (filter (touches_free h pos ls) segs)"
    by (simp add: cand_def conj_commute)
  also have "\<dots> = filter (\<lambda>t. Some t \<noteq> via) (seg # filter (touches_free h pos ls) nxt)"
    using GetTrack_filter [OF assms] by simp
  also have "\<dots> = (if Some seg \<noteq> via then [seg] else []) @ cand h via pos ls nxt"
    by (simp add: cand_def conj_commute)
  finally show ?thesis .
qed

lemma cand_Nil: "GetTrack h segs pos ls = [] \<Longrightarrow> cand h via pos ls segs = []"
  using GetTrack_Nil_filter [of h segs pos ls]
  by (simp add: cand_def filter_empty_conv)

lemma scan_segments_cand:
  "seg_count = (case candidate of None \<Rightarrow> 0 | Some _ \<Rightarrow> 1) \<Longrightarrow>
   scan_segments h via pos ls segs seg_count candidate =
     (case candidate of
        None \<Rightarrow> (case cand h via pos ls segs of [] \<Rightarrow> Some None | [c] \<Rightarrow> Some (Some c) | _ \<Rightarrow> None)
      | Some c0 \<Rightarrow> (case cand h via pos ls segs of [] \<Rightarrow> Some (Some c0) | _ \<Rightarrow> None))"
proof (induction h via pos ls segs seg_count candidate rule: scan_segments.induct)
  case (1 h via pos ls segs seg_count candidate)
  show ?case
  proof (cases "GetTrack h segs pos ls")
    case Nil
    then show ?thesis
      by (simp add: scan_segments.simps [of h via pos ls segs] cand_Nil split: option.splits)
  next
    case (Cons seg nxt)
    have free: "\<not> BUSY (h seg)"
      using GetTrack_Cons_props(2) [OF Cons] by (simp add: touches_free_def)
    show ?thesis
    proof (cases "Some seg = via")
      case True
      with Cons free "1.prems" "1.IH"(2) [OF Cons] show ?thesis
        by (simp add: scan_segments.simps [of h via pos ls segs] cand_Cons [OF Cons]
              cong: option.case_cong)
    next
      case False
      show ?thesis
      proof (cases candidate)
        case None
        with "1.prems" have sc: "seg_count = 0" by simp
        from "1.IH"(3) [OF Cons free False] sc
        have "scan_segments h via pos ls nxt (seg_count + 1) (Some seg)
                = (case cand h via pos ls nxt of [] \<Rightarrow> Some (Some seg) | _ \<Rightarrow> None)"
          by simp
        with Cons free False None sc show ?thesis
          by (simp add: scan_segments.simps [of h via pos ls segs] cand_Cons [OF Cons]
                split: list.splits)
      next
        case (Some c0)
        with "1.prems" have sc: "seg_count = 1" by simp
        with Cons free False Some show ?thesis
          by (simp add: scan_segments.simps [of h via pos ls segs] cand_Cons [OF Cons])
      qed
    qed
  qed
qed

lemma candidates_cand: "candidates b via pos ls = cand (item b) via pos ls (m_Track b)"
  by (auto simp: candidates_def cand_def touches_free_def intro: filter_cong)

lemma GetVia_find:
  "GetVia (item b) (m_Track b) aPosition layer_set =
     find (\<lambda>t. Type (item b t) = PCB_VIA_T \<and> m_Start (item b t) = aPosition
                 \<and> layer_set \<inter> GetLayerSet (item b t) \<noteq> {}) (m_Track b)"
  by (simp add: GetVia_def via_here_def [abs_def])

lemma scan_segments_candidates:
  "scan_segments (item b) via aPosition lmask (m_Track b) 0 None =
     (case candidates b via aPosition lmask of
        [] \<Rightarrow> Some None | [c] \<Rightarrow> Some (Some c) | _ \<Rightarrow> None)"
  using scan_segments_cand [of 0 None "item b" via aPosition lmask "m_Track b"]
  by (simp add: candidates_cand)

lemma chain_body_spec_eq:
  assumes "layer_set \<noteq> {}"
  shows "chain_body ext b aPosition layer_set aList = chain_step_spec b aPosition layer_set aList"
proof (cases "pad_at b aPosition layer_set")
  case True
  with GetPad_pad_at [OF assms, of ext b aPosition] show ?thesis
    by (simp add: chain_body_def chain_step_spec_def)
next
  case False
  with GetPad_pad_at [OF assms, of ext b aPosition]
  have np: "GetPad ext b aPosition layer_set = None" by simp
  define via where "via = GetVia (item b) (m_Track b) aPosition layer_set"
  define lmask where
    "lmask = (case via of Some v \<Rightarrow> GetLayerSet (item b v) | None \<Rightarrow> layer_set)"
  define chain where "chain = (case via of Some v \<Rightarrow> aList @ [v] | None \<Rightarrow> aList)"
  have lhs: "chain_body ext b aPosition layer_set aList =
      (case scan_segments (item b) via aPosition lmask (m_Track b) 0 None of
             None \<Rightarrow> Return b chain
           | Some None \<Rightarrow> Return b chain
           | Some (Some candidate) \<Rightarrow>
               Again (SetState_BUSY b candidate True)
                 (if aPosition = m_Start (item b candidate) then m_End (item b candidate)
                  else m_Start (item b candidate))
                 (GetLayerSet (item b candidate))
                 (chain @ [candidate]))"
    using np unfolding chain_body_def Let_def via_def lmask_def chain_def by simp
  have rhs: "chain_step_spec b aPosition layer_set aList =
      (case candidates b via aPosition lmask of
             [c] \<Rightarrow> Again (SetState_BUSY b c True)
                      (if aPosition = m_Start (item b c) then m_End (item b c)
                       else m_Start (item b c))
                      (GetLayerSet (item b c)) (chain @ [c])
           | _ \<Rightarrow> Return b chain)"
    using False unfolding chain_step_spec_def Let_def via_def lmask_def chain_def GetVia_find
    by simp
  show ?thesis
    unfolding lhs rhs scan_segments_candidates
    by (cases "candidates b via aPosition lmask" rule: list.exhaust; simp split: list.splits)
qed

text \<open>
  C4.  On a non-empty layer mask, a pass through the body of the loop of
  \<open>chainMarkedSegments\<close> is the step described: a pad exactly at the position on the mask
  stops the walk and nothing is consumed; else a via at the position that intersects the
  mask is appended and the mask widens to the via's layer span; then, with exactly one
  unvisited track touching the position on the mask, that track is flagged, appended, the
  mask becomes its own layer set and the walk goes on from its other end, and with no
  candidate or more than one the walk stops, the board unchanged.  The mask of the next
  pass is non-empty again, so the condition holds all along a walk that starts with a
  non-empty mask, as the layer set of a track or via is.
\<close>

theorem chain_body_is_described_step:
  assumes "layer_set \<noteq> {}"
  shows "chain_body ext b aPosition layer_set aList = chain_step_spec b aPosition layer_set aList
         \<and> (\<forall>b' aPosition' layer_set' aList'.
               chain_body ext b aPosition layer_set aList = Again b' aPosition' layer_set' aList'
               \<longrightarrow> layer_set' \<noteq> {})"
proof
  show eq: "chain_body ext b aPosition layer_set aList = chain_step_spec b aPosition layer_set aList"
    using assms by (rule chain_body_spec_eq)
  show "\<forall>b' aPosition' layer_set' aList'.
          chain_body ext b aPosition layer_set aList = Again b' aPosition' layer_set' aList'
          \<longrightarrow> layer_set' \<noteq> {}"
  proof (intro allI impI)
    fix b' aPosition' layer_set' aList'
    assume "chain_body ext b aPosition layer_set aList = Again b' aPosition' layer_set' aList'"
    then obtain via lmask c where
      c: "candidates b via aPosition lmask = [c]" and l: "layer_set' = GetLayerSet (item b c)"
      unfolding eq chain_step_spec_def Let_def
      by (auto split: if_splits list.splits)
    have "c \<in> set (candidates b via aPosition lmask)" using c by simp
    then have "lmask \<inter> GetLayerSet (item b c) \<noteq> {}"
      by (simp add: candidates_def)
    with l show "layer_set' \<noteq> {}" by auto
  qed
qed

text \<open>
  Witness for C4: on \<open>via_board\<close>, at (10,0) with mask {0}, no pad is in the way, the via
  is appended and widens the mask to layers 0 and 31, the one unvisited segment there (on
  layer 31) is flagged and appended, and the walk goes on from (20,0) on layer 31 alone.
\<close>

theorem chain_body_is_described_step_witness:
  "chain_body extern0 via_board (10, 0) {0} [] =
     Again (SetState_BUSY via_board 3 True) (20, 0) {31} [2, 3]"
proof -
  have h: "{0::nat} \<noteq> {}" by simp
  have "chain_step_spec via_board (10, 0) {0} [] =
          Again (SetState_BUSY via_board 3 True) (20, 0) {31} [2, 3]"
    by (simp add: chain_step_spec_def pad_at_def candidates_def GetLayerSet_def example_defs)
  with chain_body_is_described_step [OF h, of extern0 via_board "(10, 0)" "[]"]
  show ?thesis by simp
qed







subsection \<open>The flags left by \<open>MarkTrace\<close>\<close>

lemma count_and_clear_step_effect:
  "count_and_clear_step track (b, n) = (b', n') \<Longrightarrow>
   m_Track b' = m_Track b \<and> (\<forall>t. BUSY (item b' t) = (BUSY (item b t) \<and> t \<noteq> track))"
  by (auto simp: count_and_clear_step_def SetState_BUSY_def split: if_splits)

lemma fold_count_and_clear_effect:
  "fold count_and_clear_step xs (b, n) = (b', n') \<Longrightarrow>
   m_Track b' = m_Track b \<and> (\<forall>t. BUSY (item b' t) = (BUSY (item b t) \<and> t \<notin> set xs))"
proof (induction xs arbitrary: b n)
  case Nil
  then show ?case by simp
next
  case (Cons x xs)
  obtain b1 n1 where s: "count_and_clear_step x (b, n) = (b1, n1)"
    by (cases "count_and_clear_step x (b, n)") auto
  from Cons.prems s have "fold count_and_clear_step xs (b1, n1) = (b', n')" by simp
  from Cons.IH [OF this] count_and_clear_step_effect [OF s] show ?case by auto
qed

lemma first_BUSY_split:
  "t \<in> set (m_Track b) \<Longrightarrow> BUSY (item b t) \<Longrightarrow> t \<in> set (first_BUSY b)"
proof -
  assume a: "t \<in> set (m_Track b)" "BUSY (item b t)"
  let ?P = "\<lambda>t. \<not> BUSY (item b t)"
  have "m_Track b = takeWhile ?P (m_Track b) @ dropWhile ?P (m_Track b)" by simp
  then have "t \<in> set (takeWhile ?P (m_Track b)) \<or> t \<in> set (dropWhile ?P (m_Track b))"
    using a(1) by (metis Un_iff set_append)
  moreover have "t \<notin> set (takeWhile ?P (m_Track b))"
    using a(2) by (auto dest: set_takeWhileD)
  ultimately show ?thesis by (simp add: first_BUSY_def)
qed

lemma fold_clear_BUSY:
  "m_Track (fold (\<lambda>track b'. SetState_BUSY b' track False) xs b) = m_Track b
   \<and> (\<forall>p. BUSY (item (fold (\<lambda>track b'. SetState_BUSY b' track False) xs b) p)
            = (BUSY (item b p) \<and> p \<notin> set xs))"
  by (induction xs arbitrary: b) (auto simp: SetState_BUSY_def)

lemma clear_BUSY_all_effect:
  "m_Track (clear_BUSY_all b) = m_Track b"
  "BUSY (item (clear_BUSY_all b) p) = (BUSY (item b p) \<and> p \<notin> set (m_Track b))"
  using fold_clear_BUSY [of "m_Track b" b] by (simp_all add: clear_BUSY_all_def)

lemma GetVia_member: "GetVia h ts pos ls = Some v \<Longrightarrow> v \<in> set ts"
  by (auto simp: GetVia_def dest: find_Some_holds)

lemma chain_body_Return:
  "chain_body ext b pos ls l = Return b' l' \<Longrightarrow> b' = b \<and> set l' \<subseteq> set l \<union> set (m_Track b)"
  by (auto simp: chain_body_def Let_def split: if_splits option.splits dest: GetVia_member)

lemma chain_body_Again_list:
  "chain_body ext b pos ls l = Again b' pos' ls' l' \<Longrightarrow> set l' \<subseteq> set l \<union> set (m_Track b)"
  by (auto simp: chain_body_def Let_def split: if_splits option.splits
           dest!: scan_segments_candidate GetVia_member)

lemma chain_loop_flags:
  "chain_loop ext b pos ls l = (b', l') \<Longrightarrow>
   m_Track b' = m_Track b
   \<and> (\<forall>p. BUSY (item b p) \<longrightarrow> BUSY (item b' p))
   \<and> (\<forall>p. BUSY (item b' p) \<longrightarrow> BUSY (item b p) \<or> p \<in> set (m_Track b))
   \<and> set l' \<subseteq> set l \<union> set (m_Track b)"
proof (induction ext b pos ls l rule: chain_loop.induct)
  case (1 ext b pos ls l)
  show ?case
  proof (cases "chain_body ext b pos ls l")
    case (Return b1 l1)
    with "1.prems" have "b' = b1" "l' = l1"
      by (simp_all add: chain_loop.simps [of ext b pos ls l])
    with chain_body_Return [OF Return] show ?thesis by simp
  next
    case (Again b1 pos1 ls1 l1)
    with "1.prems" have r: "chain_loop ext b1 pos1 ls1 l1 = (b', l')"
      by (simp add: chain_loop.simps [of ext b pos ls l])
    from chain_body_Again [OF Again] chain_body_Again_list [OF Again] obtain c where
      c: "c \<in> set (m_Track b)" "b1 = SetState_BUSY b c True" "set l1 \<subseteq> set l \<union> set (m_Track b)"
      by blast
    have t1: "m_Track b1 = m_Track b" and f1: "\<And>p. BUSY (item b1 p) = (BUSY (item b p) \<or> p = c)"
      using c(2) by (auto simp: SetState_BUSY_def)
    from "1.IH" [OF Again r] t1 f1 c(1,3) show ?thesis by auto
  qed
qed

lemma chainMarkedSegments_flags:
  "m_Track (fst (chainMarkedSegments ext b pos ls l)) = m_Track b"
  "BUSY (item b p) \<Longrightarrow> BUSY (item (fst (chainMarkedSegments ext b pos ls l)) p)"
  "BUSY (item (fst (chainMarkedSegments ext b pos ls l)) p) \<Longrightarrow>
     BUSY (item b p) \<or> p \<in> set (m_Track b)"
  "set (snd (chainMarkedSegments ext b pos ls l)) \<subseteq> set l \<union> set (m_Track b)"
proof -
  obtain b' l' where r: "chain_loop ext b pos ls l = (b', l')"
    by (cases "chain_loop ext b pos ls l") auto
  note f = chain_loop_flags [OF r]
  show "m_Track (fst (chainMarkedSegments ext b pos ls l)) = m_Track b"
    using f by (simp add: chainMarkedSegments_def r)
  show "BUSY (item b p) \<Longrightarrow> BUSY (item (fst (chainMarkedSegments ext b pos ls l)) p)"
    using f by (simp add: chainMarkedSegments_def r)
  show "BUSY (item (fst (chainMarkedSegments ext b pos ls l)) p) \<Longrightarrow>
     BUSY (item b p) \<or> p \<in> set (m_Track b)"
    using f by (auto simp: chainMarkedSegments_def r split: if_splits)
  show "set (snd (chainMarkedSegments ext b pos ls l)) \<subseteq> set l \<union> set (m_Track b)"
    using f by (auto simp: chainMarkedSegments_def r split: if_splits)
qed

lemma mark_chain_flags:
  assumes "mark_chain ext b trace = Some (b', l')"
  shows "m_Track b' = m_Track b"
    and "BUSY (item b p) \<Longrightarrow> BUSY (item b' p)"
    and "BUSY (item b' p) \<Longrightarrow> BUSY (item b p) \<or> p \<in> set (m_Track b)"
    and "set l' \<subseteq> insert trace (set (m_Track b))"
proof -
  note cm = chainMarkedSegments_flags
  have "m_Track b' = m_Track b
     \<and> (BUSY (item b p) \<longrightarrow> BUSY (item b' p))
     \<and> (BUSY (item b' p) \<longrightarrow> BUSY (item b p) \<or> p \<in> set (m_Track b))
     \<and> set l' \<subseteq> insert trace (set (m_Track b))"
  proof (cases "Type (item b trace) = PCB_VIA_T")
    case True
    define pos where "pos = m_Start (item b trace)"
    define segm1 where "segm1 = GetTrack (item b) (m_Track b) pos (GetLayerSet (item b trace))"
    define segm2 where
      "segm2 = (if segm1 \<noteq> [] then GetTrack (item b) (tl segm1) pos (GetLayerSet (item b trace))
                else [])"
    define r1 where
      "r1 = (if segm1 \<noteq> []
             then chainMarkedSegments ext b pos (GetLayerSet (item b (hd segm1))) [trace]
             else (b, [trace]))"
    define r2 where
      "r2 = (if segm2 \<noteq> []
             then chainMarkedSegments ext (fst r1) pos
                    (GetLayerSet (item (fst r1) (hd segm2))) (snd r1)
             else r1)"
    from assms True have "Some (b', l') = Some r2"
      by (simp add: mark_chain_def Let_def pos_def segm1_def segm2_def r1_def r2_def
               split: if_splits)
    then have res: "b' = fst r2" "l' = snd r2" by auto
    have t1: "m_Track (fst r1) = m_Track b"
      by (simp add: r1_def cm(1))
    have u1: "BUSY (item b p) \<Longrightarrow> BUSY (item (fst r1) p)"
      by (simp add: r1_def cm(2))
    have d1: "BUSY (item (fst r1) p) \<Longrightarrow> BUSY (item b p) \<or> p \<in> set (m_Track b)"
      using cm(3) [of ext b pos "GetLayerSet (item b (hd segm1))" "[trace]" p]
      by (simp add: r1_def split: if_splits)
    have l1: "set (snd r1) \<subseteq> insert trace (set (m_Track b))"
      using cm(4) [of ext b pos "GetLayerSet (item b (hd segm1))" "[trace]"]
      by (simp add: r1_def split: if_splits)
    have t2: "m_Track (fst r2) = m_Track (fst r1)"
      by (simp add: r2_def cm(1))
    have u2: "BUSY (item (fst r1) p) \<Longrightarrow> BUSY (item (fst r2) p)"
      by (simp add: r2_def cm(2))
    have d2: "BUSY (item (fst r2) p) \<Longrightarrow> BUSY (item (fst r1) p) \<or> p \<in> set (m_Track (fst r1))"
      using cm(3) [of ext "fst r1" pos "GetLayerSet (item (fst r1) (hd segm2))" "snd r1" p]
      by (simp add: r2_def split: if_splits)
    have l2: "set (snd r2) \<subseteq> set (snd r1) \<union> set (m_Track (fst r1))"
      using cm(4) [of ext "fst r1" pos "GetLayerSet (item (fst r1) (hd segm2))" "snd r1"]
      by (simp add: r2_def split: if_splits)
    from res t1 u1 d1 l1 t2 u2 d2 l2 show ?thesis by auto
  next
    case False
    define r1 where
      "r1 = chainMarkedSegments ext b (m_Start (item b trace)) (GetLayerSet (item b trace)) []"
    define r2 where
      "r2 = chainMarkedSegments ext (fst r1) (m_End (item (fst r1) trace))
              (GetLayerSet (item b trace)) []"
    from assms False have res: "b' = fst r2" "l' = [trace] @ snd r1 @ snd r2"
      by (simp_all add: mark_chain_def Let_def r1_def r2_def)
    have t1: "m_Track (fst r1) = m_Track b"
      by (simp add: r1_def cm(1))
    have u1: "BUSY (item b p) \<Longrightarrow> BUSY (item (fst r1) p)"
      by (simp add: r1_def cm(2))
    have d1: "BUSY (item (fst r1) p) \<Longrightarrow> BUSY (item b p) \<or> p \<in> set (m_Track b)"
      unfolding r1_def by (rule cm(3))
    have l1: "set (snd r1) \<subseteq> set (m_Track b)"
      using cm(4) [of ext b "m_Start (item b trace)" "GetLayerSet (item b trace)" "[]"]
      by (simp add: r1_def)
    have t2: "m_Track (fst r2) = m_Track (fst r1)"
      by (simp add: r2_def cm(1))
    have u2: "BUSY (item (fst r1) p) \<Longrightarrow> BUSY (item (fst r2) p)"
      by (simp add: r2_def cm(2))
    have d2: "BUSY (item (fst r2) p) \<Longrightarrow> BUSY (item (fst r1) p) \<or> p \<in> set (m_Track (fst r1))"
      unfolding r2_def by (rule cm(3))
    have l2: "set (snd r2) \<subseteq> set (m_Track (fst r1))"
      using cm(4) [of ext "fst r1" "m_End (item (fst r1) trace)" "GetLayerSet (item b trace)" "[]"]
      by (simp add: r2_def)
    from res t1 u1 d1 l1 t2 u2 d2 l2 show ?thesis by auto
  qed
  then show "m_Track b' = m_Track b"
    and "BUSY (item b p) \<Longrightarrow> BUSY (item b' p)"
    and "BUSY (item b' p) \<Longrightarrow> BUSY (item b p) \<or> p \<in> set (m_Track b)"
    and "set l' \<subseteq> insert trace (set (m_Track b))"
    by auto
qed

lemma examine_via_flags:
  "m_Track (examine_via trace it b) = m_Track b
   \<and> (\<forall>p. p \<noteq> it \<or> it = trace \<longrightarrow> BUSY (item (examine_via trace it b) p) = BUSY (item b p))"
  by (auto simp: examine_via_def Let_def SetState_BUSY_def split: list.splits)

lemma fold_examine_via_flags:
  "m_Track (fold (examine_via trace) xs b) = m_Track b
   \<and> (\<forall>p. p \<notin> set xs \<or> p = trace \<longrightarrow> BUSY (item (fold (examine_via trace) xs b) p) = BUSY (item b p))"
proof (induction xs arbitrary: b)
  case Nil
  show ?case by simp
next
  case (Cons x xs)
  from Cons [of "examine_via trace x b"] examine_via_flags [of trace x b] show ?case
    by auto
qed

lemma reorder_step_item:
  "item (fst (reorder_step firstTrack track st)) = item (fst st)"
  by (cases st) (simp add: reorder_step_def)

lemma fold_reorder_step_item:
  "item (fst (fold (reorder_step firstTrack) xs st)) = item (fst st)"
  by (induction xs arbitrary: st) (simp_all add: reorder_step_item)


lemma first_BUSY_subset: "set (first_BUSY b) \<subseteq> set (m_Track b)"
  by (auto simp: first_BUSY_def dest: set_dropWhileD)

lemma MarkTrace_finish_flags:
  assumes "first_BUSY b2 \<noteq> []"
  shows "BUSY (item (board_after (MarkTrace_finish ext b2 (first_BUSY b2) aCount aTraceLength
                 aPadToDieLength aReorder)) p)
         = (BUSY (item b2 p) \<and> \<not> (\<not> aReorder \<and> aTraceLength \<and> p \<in> set (m_Track b2)))"
proof -
  define r where
    "r = (if aReorder
          then fold (reorder_step (hd (first_BUSY b2))) (tl (first_BUSY b2)) (b2, 1)
          else if aTraceLength then fold count_and_clear_step (first_BUSY b2) (b2, 0)
          else (b2, 1))"
  have res: "board_after (MarkTrace_finish ext b2 (first_BUSY b2) aCount aTraceLength
                 aPadToDieLength aReorder) = fst r"
    by (simp add: MarkTrace_finish_def Let_def r_def split: prod.splits)
  show ?thesis
  proof (cases aReorder)
    case True
    then have "item (fst r) = item b2"
      using fold_reorder_step_item [of "hd (first_BUSY b2)" "tl (first_BUSY b2)" "(b2, 1)"]
      by (simp add: r_def)
    with True res show ?thesis by simp
  next
    case False
    show ?thesis
    proof (cases aTraceLength)
      case True
      obtain b3 n3 where f: "fold count_and_clear_step (first_BUSY b2) (b2, 0) = (b3, n3)"
        by (cases "fold count_and_clear_step (first_BUSY b2) (b2, 0)") auto
      from fold_count_and_clear_effect [OF f]
      have fl: "BUSY (item b3 p) = (BUSY (item b2 p) \<and> p \<notin> set (first_BUSY b2))" by simp
      have "fst r = b3" using False True f by (simp add: r_def)
      with res fl False True first_BUSY_split [of p b2] first_BUSY_subset [of b2]
      show ?thesis by auto
    next
      case False
      with \<open>\<not> aReorder\<close> res show ?thesis by (simp add: r_def)
    qed
  qed
qed

lemma MarkTrace_flags:
  assumes mc: "mark_chain ext (SetState_BUSY (clear_BUSY_all b) trace True) trace = Some (b1, trackList)"
  shows "BUSY (item (board_after (MarkTrace ext b (Some trace) aCount aTraceLength
                 aPadToDieLength aReorder)) p)
         = (BUSY (item (fold (examine_via trace) (rev trackList) b1) p)
            \<and> \<not> (\<not> aReorder \<and> aTraceLength \<and> p \<in> set (m_Track b)))"
proof -
  define b0 where "b0 = SetState_BUSY (clear_BUSY_all b) trace True"
  define b2 where "b2 = fold (examine_via trace) (rev trackList) b1"
  have t0: "m_Track b0 = m_Track b"
    by (simp add: b0_def SetState_BUSY_def clear_BUSY_all_effect(1))
  have t2: "m_Track b2 = m_Track b"
    using fold_examine_via_flags [of trace "rev trackList" b1] mark_chain_flags(1) [OF mc] t0
    by (simp add: b2_def b0_def)
  show ?thesis
  proof (cases "first_BUSY b2 = []")
    case True
    then have res: "board_after (MarkTrace ext b (Some trace) aCount aTraceLength
                 aPadToDieLength aReorder) = b2"
      by (simp add: MarkTrace_def mc b2_def)
    have "\<not> (BUSY (item b2 p) \<and> p \<in> set (m_Track b2))"
      using True first_BUSY_split [of p b2] by auto
    with res t2 show ?thesis by (auto simp: b2_def)
  next
    case False
    then have res: "board_after (MarkTrace ext b (Some trace) aCount aTraceLength
                 aPadToDieLength aReorder)
               = board_after (MarkTrace_finish ext b2 (first_BUSY b2) aCount aTraceLength
                 aPadToDieLength aReorder)"
      by (simp add: MarkTrace_def mc b2_def [symmetric])
    have "BUSY (item (board_after (MarkTrace_finish ext b2 (first_BUSY b2) aCount aTraceLength
                 aPadToDieLength aReorder)) p)
          = (BUSY (item b2 p) \<and> \<not> (\<not> aReorder \<and> aTraceLength \<and> p \<in> set (m_Track b)))"
      using MarkTrace_finish_flags [OF False, of ext aCount aTraceLength aPadToDieLength aReorder p]
      by (simp only: t2)
    with res show ?thesis by (simp only: b2_def)
  qed
qed

lemma MarkTrace_start_item_kept:
  assumes mc: "mark_chain ext (SetState_BUSY (clear_BUSY_all b) trace True) trace = Some (b1, trackList)"
  shows "BUSY (item (fold (examine_via trace) (rev trackList) b1) trace)"
proof -
  have "BUSY (item (SetState_BUSY (clear_BUSY_all b) trace True) trace)"
    by (simp add: SetState_BUSY_def)
  then have "BUSY (item b1 trace)"
    by (rule mark_chain_flags(2) [OF mc])
  with fold_examine_via_flags [of trace "rev trackList" b1] show ?thesis by simp
qed

lemma MarkTrace_flags_origin:
  assumes mc: "mark_chain ext (SetState_BUSY (clear_BUSY_all b) trace True) trace = Some (b1, trackList)"
    and p: "p \<notin> set (m_Track b)" "BUSY (item (fold (examine_via trace) (rev trackList) b1) p)"
  shows "p = trace \<or> BUSY (item b p)"
proof -
  define b0 where "b0 = SetState_BUSY (clear_BUSY_all b) trace True"
  have t0: "m_Track b0 = m_Track b"
    by (simp add: b0_def SetState_BUSY_def clear_BUSY_all_effect(1))
  have "set trackList \<subseteq> insert trace (set (m_Track b))"
    using mark_chain_flags(4) [OF mc] t0 by (simp add: b0_def)
  with p(1) have "p \<notin> set (rev trackList) \<or> p = trace" by auto
  with fold_examine_via_flags [of trace "rev trackList" b1] p(2) have "BUSY (item b1 p)"
    by simp
  from mark_chain_flags(3) [OF mc this] p(1) t0 have "BUSY (item b0 p)"
    by (simp add: b0_def)
  then show ?thesis
    by (auto simp: b0_def SetState_BUSY_def clear_BUSY_all_effect(2) split: if_splits)
qed

text \<open>
  C2, as stated, fails.  On the line of three segments, \<open>MarkTrace\<close> started on the middle
  segment with \<open>aReorder\<close> true returns with that segment still flagged \<open>BUSY\<close>; so does the
  call with \<open>aReorder\<close> false and no \<open>aTraceLength\<close>; and \<open>chainMarkedSegments\<close> itself returns
  with the segments it has chained flagged.  With \<open>aReorder\<close> false and \<open>aTraceLength\<close>
  supplied, \<open>MarkTrace\<close> started on the via of \<open>via_star\<close>, where three segments meet, takes
  the early return "the track is only this via" and leaves the via flagged; and started on
  a segment that is not on the track list of the board (\<open>line3_new\<close>), it returns with that
  segment flagged, as the loop that clears the flags walks the board's list.
\<close>

theorem MarkTrace_leaves_BUSY_counterexample:
  "BUSY (item (board_after (MarkTrace extern0 line3 (Some 2) True True True True)) 2)
   \<and> BUSY (item (board_after (MarkTrace extern0 line3 (Some 2) True False True False)) 2)
   \<and> BUSY (item (fst (chainMarkedSegments extern0 ring3 (10, 0) {0} [])) 3)
   \<and> mark_chain extern0 (SetState_BUSY (clear_BUSY_all via_star) 4 True) 4 = None
   \<and> BUSY (item (board_after (MarkTrace extern0 via_star (Some 4) True True True False)) 4)
   \<and> m_Track line3_new = [1, 2, 3]
   \<and> BUSY (item (board_after (MarkTrace extern0 line3_new (Some 4) True True True False)) 4)"
  by code_simp

text \<open>
  C2, amended.  \<open>MarkTrace\<close> resets the flags it has set on one of its paths only.  When it
  is called on a start item of the board's track list, with \<open>aReorder\<close> false and
  \<open>aTraceLength\<close> supplied, and does not take the early return for a via with more than two
  segments connected, every item whose flag was set during the call has it reset on return:
  an item flagged \<open>BUSY\<close> on return is outside the track list and was flagged before the
  call.  On every other path (the start item not on the track list, \<open>aReorder\<close> true, no
  \<open>aTraceLength\<close>, or the early return) the start item is still flagged on return.  The
  chain walk resets no flag: an item flagged when \<open>chainMarkedSegments\<close> is called, or
  flagged by a pass through its loop, is flagged when the walk returns.
\<close>

theorem MarkTrace_resets_BUSY:
  "(trace \<in> set (m_Track b) \<and> \<not> aReorder \<and> aTraceLength
      \<and> mark_chain ext (SetState_BUSY (clear_BUSY_all b) trace True) trace \<noteq> None
     \<longrightarrow> (\<forall>p. BUSY (item (board_after (MarkTrace ext b (Some trace) aCount aTraceLength
                       aPadToDieLength aReorder)) p)
               \<longrightarrow> BUSY (item b p) \<and> p \<notin> set (m_Track b)))
   \<and> (trace \<notin> set (m_Track b) \<or> aReorder \<or> \<not> aTraceLength
      \<or> mark_chain ext (SetState_BUSY (clear_BUSY_all b) trace True) trace = None
     \<longrightarrow> BUSY (item (board_after (MarkTrace ext b (Some trace) aCount aTraceLength
                   aPadToDieLength aReorder)) trace))
   \<and> (\<forall>p. BUSY (item b p)
          \<longrightarrow> BUSY (item (fst (chainMarkedSegments ext b aPosition aLayerSet aList)) p))
   \<and> (\<forall>b1 aPosition1 aLayerSet1 aList1 p.
          chain_body ext b aPosition aLayerSet aList = Again b1 aPosition1 aLayerSet1 aList1
            \<and> BUSY (item b1 p)
          \<longrightarrow> BUSY (item (fst (chain_loop ext b aPosition aLayerSet aList)) p))"
proof (intro conjI impI allI)
  fix p
  assume a: "trace \<in> set (m_Track b) \<and> \<not> aReorder \<and> aTraceLength
      \<and> mark_chain ext (SetState_BUSY (clear_BUSY_all b) trace True) trace \<noteq> None"
    and busy: "BUSY (item (board_after (MarkTrace ext b (Some trace) aCount aTraceLength
                       aPadToDieLength aReorder)) p)"
  from a obtain b1 trackList where
    mc: "mark_chain ext (SetState_BUSY (clear_BUSY_all b) trace True) trace = Some (b1, trackList)"
    by auto
  from busy a have off: "p \<notin> set (m_Track b)"
    and b2: "BUSY (item (fold (examine_via trace) (rev trackList) b1) p)"
    by (simp_all add: MarkTrace_flags [OF mc])
  from MarkTrace_flags_origin [OF mc off b2] off a show "BUSY (item b p)" by auto
  from off show "p \<notin> set (m_Track b)" .
next
  assume a: "trace \<notin> set (m_Track b) \<or> aReorder \<or> \<not> aTraceLength
      \<or> mark_chain ext (SetState_BUSY (clear_BUSY_all b) trace True) trace = None"
  show "BUSY (item (board_after (MarkTrace ext b (Some trace) aCount aTraceLength
                   aPadToDieLength aReorder)) trace)"
  proof (cases "mark_chain ext (SetState_BUSY (clear_BUSY_all b) trace True) trace")
    case None
    then show ?thesis by (simp add: MarkTrace_def SetState_BUSY_def)
  next
    case (Some r)
    then obtain b1 trackList where
      mc: "mark_chain ext (SetState_BUSY (clear_BUSY_all b) trace True) trace = Some (b1, trackList)"
      by (cases r) auto
    from a mc MarkTrace_start_item_kept [OF mc] show ?thesis
      by (auto simp: MarkTrace_flags [OF mc])
  qed
next
  fix p
  assume "BUSY (item b p)"
  then show "BUSY (item (fst (chainMarkedSegments ext b aPosition aLayerSet aList)) p)"
    by (rule chainMarkedSegments_flags(2))
next
  fix b1 aPosition1 aLayerSet1 aList1 p
  assume a: "chain_body ext b aPosition aLayerSet aList = Again b1 aPosition1 aLayerSet1 aList1
               \<and> BUSY (item b1 p)"
  obtain b' l' where r: "chain_loop ext b1 aPosition1 aLayerSet1 aList1 = (b', l')"
    by (cases "chain_loop ext b1 aPosition1 aLayerSet1 aList1") auto
  from a have "chain_loop ext b aPosition aLayerSet aList = (b', l')"
    by (simp add: chain_loop.simps [of ext b aPosition aLayerSet aList] r)
  with chain_loop_flags [OF r] a
  show "BUSY (item (fst (chain_loop ext b aPosition aLayerSet aList)) p)"
    by simp
qed

text \<open>
  Witness for C2, amended.  \<open>MarkTrace\<close> on the middle segment of the line of three, with
  \<open>aReorder\<close> false and \<open>aTraceLength\<close> supplied, returns with no item flagged; with
  \<open>aReorder\<close> true it returns with the middle segment flagged.  The chain walk on
  \<open>via_board\<close> returns with segment 1, flagged at the call, still flagged; the walk round
  the closed loop \<open>ring3\<close> flags segment 2 in its first pass and returns with it flagged.
\<close>

theorem MarkTrace_resets_BUSY_witness:
  "(\<forall>p. \<not> BUSY (item (board_after (MarkTrace extern0 line3 (Some 2) True True True False)) p))
   \<and> BUSY (item (board_after (MarkTrace extern0 line3 (Some 2) True True True True)) 2)
   \<and> BUSY (item (fst (chainMarkedSegments extern0 via_board (10, 0) {0} [])) 1)
   \<and> BUSY (item (fst (chain_loop extern0 ring3 (10, 0) {0} [])) 2)"
proof -
  have on: "2 \<in> set (m_Track line3)"
    by (simp add: example_defs)
  have h: "mark_chain extern0 (SetState_BUSY (clear_BUSY_all line3) 2 True) 2 \<noteq> None"
    by (simp add: mark_chain_def Let_def SetState_BUSY_def clear_BUSY_all_def example_defs)
  have free: "\<And>p. \<not> BUSY (item line3 p)"
    by (simp add: example_defs)
  have flagged: "BUSY (item via_board 1)"
    by (simp add: example_defs)
  from MarkTrace_resets_BUSY [where trace = 2 and b = line3 and ext = extern0 and aCount = True
         and aTraceLength = True and aPadToDieLength = True and aReorder = False] on h free
  have c1: "\<forall>p. \<not> BUSY (item (board_after
                  (MarkTrace extern0 line3 (Some 2) True True True False)) p)"
    by blast
  from MarkTrace_resets_BUSY [where trace = 2 and b = line3 and ext = extern0 and aCount = True
         and aTraceLength = True and aPadToDieLength = True and aReorder = True]
  have c2: "BUSY (item (board_after (MarkTrace extern0 line3 (Some 2) True True True True)) 2)"
    by blast
  from MarkTrace_resets_BUSY [where b = via_board and ext = extern0 and aPosition = "(10, 0)"
         and aLayerSet = "{0}" and aList = "[]"] flagged
  have c3: "BUSY (item (fst (chainMarkedSegments extern0 via_board (10, 0) {0} [])) 1)"
    by blast
  have "case chain_body extern0 ring3 (10, 0) {0} [] of
          Return b1 aList1 \<Rightarrow> False
        | Again b1 aPosition1 aLayerSet1 aList1 \<Rightarrow> BUSY (item b1 2)"
    by code_simp
  then obtain b1 aPosition1 aLayerSet1 aList1 where
    pass: "chain_body extern0 ring3 (10, 0) {0} [] = Again b1 aPosition1 aLayerSet1 aList1"
          "BUSY (item b1 2)"
    by (cases "chain_body extern0 ring3 (10, 0) {0} []") auto
  from MarkTrace_resets_BUSY [where b = ring3 and ext = extern0 and aPosition = "(10, 0)"
         and aLayerSet = "{0}" and aList = "[]"] pass
  have c4: "BUSY (item (fst (chain_loop extern0 ring3 (10, 0) {0} [])) 2)"
    by blast
  from c1 c2 c3 c4 show ?thesis by blast
qed

subsection \<open>The connectivity index under \<open>Add\<close> and \<open>Remove\<close>\<close>













lemma register_item_more [simp]:
  "CONNECTIVITY_DATA.more (register_item h p c) = CONNECTIVITY_DATA.more c"
  by (simp add: register_item_def)

lemma deregister_item_more [simp]:
  "CONNECTIVITY_DATA.more (deregister_item h p c) = CONNECTIVITY_DATA.more c"
  by (simp add: deregister_item_def)












end
